theory Spec2Isabelle
  imports Main
begin

section \<open>Strings and the regular expressions of the source\<close>

text \<open>
  A Python \<^verbatim>\<open>str\<close> is modelled as a \<^typ>\<open>string\<close> whose characters are the code
  points 0 to 255. On that range the class \<^verbatim>\<open>\d\<close> of \<^verbatim>\<open>re\<close> is the ten ASCII digits, the
  class \<^verbatim>\<open>\s\<close> (and the characters removed by \<^verbatim>\<open>str.strip()\<close>) is the set below, and
  under \<^verbatim>\<open>re.IGNORECASE\<close> each of the letters used by the patterns of the source matches
  exactly its own upper and lower case form.
\<close>

definition is_digit :: "char \<Rightarrow> bool" where
  "is_digit c = (c \<in> set ''0123456789'')"

definition is_space :: "char \<Rightarrow> bool" where
  "is_space c = (c \<in> set [CHR 0x09, CHR 0x0A, CHR 0x0B, CHR 0x0C, CHR 0x0D,
     CHR 0x1C, CHR 0x1D, CHR 0x1E, CHR 0x1F, CHR 0x20, CHR 0x85, CHR 0xA0])"

definition upper_char :: "char \<Rightarrow> char" where
  "upper_char c =
     (case map_of (zip ''abcdefghijklmnopqrstuvwxyz'' ''ABCDEFGHIJKLMNOPQRSTUVWXYZ'') c of
        Some u \<Rightarrow> u
      | None \<Rightarrow> c)"

text \<open>
  \<^verbatim>\<open>str.upper()\<close>; the source applies it to regex groups only, which consist of ASCII
  letters, and on those it is the function below.
\<close>

definition upper :: "string \<Rightarrow> string" where
  "upper s = map upper_char s"

text \<open>\<^verbatim>\<open>str.strip()\<close> with no argument.\<close>

definition py_strip :: "string \<Rightarrow> string" where
  "py_strip s = rev (dropWhile is_space (rev (dropWhile is_space s)))"

text \<open>
  \<^verbatim>\<open>int(ds)\<close> for a group matched by \<^verbatim>\<open>\d+\<close>. Python integers are unbounded; the limit
  that recent interpreters put on the number of digits \<^verbatim>\<open>int\<close> accepts (4300 by default) is
  not modelled.
\<close>

definition digit_val :: "char \<Rightarrow> int" where
  "digit_val c = int (of_char c) - 48"

definition py_int :: "string \<Rightarrow> int" where
  "py_int ds = foldl (\<lambda>n c. 10 * n + digit_val c) 0 ds"

text \<open>\<^verbatim>\<open>s.split("+")\<close>: the pieces between the plus signs, at least one piece.\<close>

fun split_acc :: "string \<Rightarrow> string \<Rightarrow> string list" where
  "split_acc cur [] = [cur]"
| "split_acc cur (c # cs) =
     (if c = CHR ''+'' then cur # split_acc [] cs else split_acc (cur @ [c]) cs)"

definition split_plus :: "string \<Rightarrow> string list" where
  "split_plus s = split_acc [] s"

text \<open>
  \<^verbatim>\<open>re.search(p, s)\<close> tries the start positions of \<open>s\<close> from left to right and returns
  the first match. The first argument is the pattern anchored at a start position, given
  as a function from the rest of the string to the groups of the match.
\<close>

fun re_search :: "(string \<Rightarrow> 'g option) \<Rightarrow> string \<Rightarrow> 'g option" where
  "re_search m [] = m []"
| "re_search m (c # cs) =
     (case m (c # cs) of Some g \<Rightarrow> Some g | None \<Rightarrow> re_search m cs)"

text \<open>
  The four patterns of the source, anchored. A greedy \<^verbatim>\<open>\d+\<close> takes the whole run of
  digits at the start position; giving a digit back never helps, because what follows the
  group in each pattern (white space, \<^verbatim>\<open>G\<close>, \<^verbatim>\<open>T\<close>) cannot match a digit. The same
  holds for \<^verbatim>\<open>\s+\<close> before \<^verbatim>\<open>Cores\<close>. The result is group 1 (and group 2).

  \<^verbatim>\<open>(\d+)\s+Cores\<close>
\<close>

definition match_cores :: "string \<Rightarrow> string option" where
  "match_cores s =
     (let ds = takeWhile is_digit s; r = dropWhile is_digit s;
          ws = takeWhile is_space r; r' = dropWhile is_space r
      in if ds \<noteq> [] \<and> ws \<noteq> [] \<and> take 5 r' = ''Cores'' then Some ds else None)"

text \<open>\<^verbatim>\<open>(\d+)GB\<close>\<close>

definition match_gb :: "string \<Rightarrow> string option" where
  "match_gb s =
     (let ds = takeWhile is_digit s; r = dropWhile is_digit s
      in if ds \<noteq> [] \<and> take 2 r = ''GB'' then Some ds else None)"

text \<open>\<^verbatim>\<open>(\d+)(TB|GB)\<close> with \<^verbatim>\<open>re.IGNORECASE\<close>\<close>

definition match_size :: "string \<Rightarrow> (string \<times> string) option" where
  "match_size s =
     (let ds = takeWhile is_digit s; r = dropWhile is_digit s; u = take 2 r
      in if ds \<noteq> [] \<and> (upper u = ''TB'' \<or> upper u = ''GB'') then Some (ds, u) else None)"

text \<open>\<^verbatim>\<open>(SSD|HDD|NVMe)\<close> with \<^verbatim>\<open>re.IGNORECASE\<close>; the alternatives are tried in order.\<close>

definition match_type :: "string \<Rightarrow> string option" where
  "match_type s =
     (if upper (take 3 s) = ''SSD'' then Some (take 3 s)
      else if upper (take 3 s) = ''HDD'' then Some (take 3 s)
      else if upper (take 4 s) = ''NVME'' then Some (take 4 s)
      else None)"

section \<open>Requirement parser\<close>

text \<open>
  A row of the inventory spreadsheet, with the six columns the source reads, all text, as in
  the data model of the specification. A cell that is not text (a number, an empty cell) is
  outside the model: on such a cell \<^verbatim>\<open>re.search\<close> and \<^verbatim>\<open>str.split\<close> raise.
\<close>

record requirement =
  raw_Server_Name :: string
  raw_IP_Address :: string
  raw_CPU :: string
  raw_RAM :: string
  raw_Storage :: string
  raw_Database :: string

text \<open>
  The dictionary built by \<^verbatim>\<open>extract_cpu_ram\<close>. The one of
  \<^verbatim>\<open>EC2CostEstimation-Lambda.py\<close> has four keys; the one of \<^verbatim>\<open>CostEstimationLambda.py\<close>
  has the same four and \<^verbatim>\<open>Storage\<close> and \<^verbatim>\<open>Database\<close>.
\<close>

record normalized_ec2 =
  n_Server_Name :: string
  n_IP_Address :: string
  n_CPU :: int
  n_RAM :: int

record normalized_requirement = normalized_ec2 +
  n_Storage :: string
  n_Database :: string

text \<open>\<^verbatim>\<open>extract_cpu_ram\<close> of \<^verbatim>\<open>CostEstimationLambda.py\<close>: the loop, with the list it appends to.\<close>

fun extract_loop :: "requirement list \<Rightarrow> normalized_requirement list \<Rightarrow> normalized_requirement list" where
  "extract_loop [] filtered_requirements = filtered_requirements"
| "extract_loop (req # rest) filtered_requirements =
     (case (re_search match_cores (raw_CPU req), re_search match_gb (raw_RAM req)) of
        (Some cpu_group, Some ram_group) \<Rightarrow>
          extract_loop rest (filtered_requirements @
            [\<lparr>n_Server_Name = raw_Server_Name req, n_IP_Address = raw_IP_Address req,
              n_CPU = py_int cpu_group, n_RAM = py_int ram_group,
              n_Storage = raw_Storage req, n_Database = raw_Database req\<rparr>])
      | _ \<Rightarrow> extract_loop rest filtered_requirements)"

definition extract_cpu_ram :: "requirement list \<Rightarrow> normalized_requirement list" where
  "extract_cpu_ram requirements = extract_loop requirements []"

text \<open>\<^verbatim>\<open>extract_cpu_ram\<close> of \<^verbatim>\<open>EC2CostEstimation-Lambda.py\<close>.\<close>

fun extract_loop_ec2 :: "requirement list \<Rightarrow> normalized_ec2 list \<Rightarrow> normalized_ec2 list" where
  "extract_loop_ec2 [] filtered_requirements = filtered_requirements"
| "extract_loop_ec2 (req # rest) filtered_requirements =
     (case (re_search match_cores (raw_CPU req), re_search match_gb (raw_RAM req)) of
        (Some cpu_group, Some ram_group) \<Rightarrow>
          extract_loop_ec2 rest (filtered_requirements @
            [\<lparr>n_Server_Name = raw_Server_Name req, n_IP_Address = raw_IP_Address req,
              n_CPU = py_int cpu_group, n_RAM = py_int ram_group\<rparr>])
      | _ \<Rightarrow> extract_loop_ec2 rest filtered_requirements)"

definition extract_cpu_ram_ec2 :: "requirement list \<Rightarrow> normalized_ec2 list" where
  "extract_cpu_ram_ec2 requirements = extract_loop_ec2 requirements []"

text \<open>
  The parser of one record, \<open>parse(raw)\<close> in the specification: the source has no function
  of that name, it is \<^verbatim>\<open>extract_cpu_ram\<close> on the list of that one record.
\<close>

definition parse :: "requirement \<Rightarrow> normalized_requirement option" where
  "parse raw = (case extract_cpu_ram [raw] of [] \<Rightarrow> None | n # _ \<Rightarrow> Some n)"

definition parse_ec2 :: "requirement \<Rightarrow> normalized_ec2 option" where
  "parse_ec2 raw = (case extract_cpu_ram_ec2 [raw] of [] \<Rightarrow> None | n # _ \<Rightarrow> Some n)"

text \<open>
  What the specification calls a match, stated on the text itself: the field contains one
  or more digits, then white space, then \<^verbatim>\<open>Cores\<close>; or one or more digits and then
  \<^verbatim>\<open>GB\<close>. \<open>cores_at\<close> and \<open>gb_at\<close> say that such a match starts at the beginning of the
  text with the digit group \<open>ds\<close>.
\<close>

definition cores_at :: "string \<Rightarrow> string \<Rightarrow> bool" where
  "cores_at t ds \<longleftrightarrow> ds \<noteq> [] \<and> list_all is_digit ds \<and>
     (\<exists>ws post. ws \<noteq> [] \<and> list_all is_space ws \<and> t = ds @ ws @ ''Cores'' @ post)"

definition gb_at :: "string \<Rightarrow> string \<Rightarrow> bool" where
  "gb_at t ds \<longleftrightarrow> ds \<noteq> [] \<and> list_all is_digit ds \<and> (\<exists>post. t = ds @ ''GB'' @ post)"

definition has_cores_pattern :: "string \<Rightarrow> bool" where
  "has_cores_pattern s \<longleftrightarrow> (\<exists>pre t ds. s = pre @ t \<and> cores_at t ds)"

definition has_gb_pattern :: "string \<Rightarrow> bool" where
  "has_gb_pattern s \<longleftrightarrow> (\<exists>pre t ds. s = pre @ t \<and> gb_at t ds)"

text \<open>
  The groups of the match \<^verbatim>\<open>re.search\<close> reports: those of the match that starts first. The
  predicate \<open>at t g\<close> says that a match with groups \<open>g\<close> starts at the beginning of \<open>t\<close>.
\<close>

definition first_match :: "(string \<Rightarrow> 'g \<Rightarrow> bool) \<Rightarrow> string \<Rightarrow> 'g \<Rightarrow> bool" where
  "first_match at s g \<longleftrightarrow>
     (\<exists>pre t. s = pre @ t \<and> at t g \<and>
        (\<forall>pre' t' g'. s = pre' @ t' \<and> length pre' < length pre \<longrightarrow> \<not> at t' g'))"

section \<open>Instance matcher\<close>

text \<open>
  One entry of the catalog returned by \<^verbatim>\<open>fetch_ec2_instance_types\<close>, and the dictionary
  \<^verbatim>\<open>best_match\<close>, which adds the name of the instance type. The catalog is a Python
  dictionary; the matcher only iterates over its items, so it is the list of the items in
  iteration order.
\<close>

record instance_info =
  vCPUs :: int
  MemoryMiB :: int

record best_match = instance_info +
  InstanceType :: string

type_synonym catalog = "(string \<times> instance_info) list"

record matched_instance =
  m_Server_Name :: string
  m_IP_Address :: string
  m_CPU :: int
  m_RAM :: int
  m_InstanceType :: string
  m_Storage :: string
  m_Database :: string

text \<open>The inner loop of \<^verbatim>\<open>find_best_match\<close> over the items of the catalog.\<close>

fun best_match_loop :: "normalized_requirement \<Rightarrow> catalog \<Rightarrow> best_match option \<Rightarrow> best_match option" where
  "best_match_loop req [] best = best"
| "best_match_loop req ((instance_name, instance) # rest) best =
     (if vCPUs instance \<ge> n_CPU req \<and> MemoryMiB instance \<ge> n_RAM req then
        (if (case best of None \<Rightarrow> True
             | Some b \<Rightarrow> vCPUs instance < vCPUs b \<or> MemoryMiB instance < MemoryMiB b)
         then best_match_loop req rest
                (Some \<lparr>vCPUs = vCPUs instance, MemoryMiB = MemoryMiB instance,
                       InstanceType = instance_name\<rparr>)
         else best_match_loop req rest best)
      else best_match_loop req rest best)"

text \<open>The outer loop over the requirements, with the list it appends to.\<close>

fun find_loop :: "normalized_requirement list \<Rightarrow> catalog \<Rightarrow> matched_instance list \<Rightarrow> matched_instance list" where
  "find_loop [] ec2_instances matched_instances = matched_instances"
| "find_loop (req # rest) ec2_instances matched_instances =
     (case best_match_loop req ec2_instances None of
        Some b \<Rightarrow>
          find_loop rest ec2_instances (matched_instances @
            [\<lparr>m_Server_Name = n_Server_Name req, m_IP_Address = n_IP_Address req,
              m_CPU = vCPUs b, m_RAM = MemoryMiB b, m_InstanceType = InstanceType b,
              m_Storage = n_Storage req, m_Database = n_Database req\<rparr>])
      | None \<Rightarrow> find_loop rest ec2_instances matched_instances)"

definition find_best_match :: "normalized_requirement list \<Rightarrow> catalog \<Rightarrow> matched_instance list" where
  "find_best_match filtered_data ec2_instances = find_loop filtered_data ec2_instances []"

text \<open>\<open>match(r, catalog)\<close> of the specification: the selection for one requirement.\<close>

definition select_instance :: "normalized_requirement \<Rightarrow> catalog \<Rightarrow> best_match option" where
  "select_instance req ec2_instances = best_match_loop req ec2_instances None"

definition qualifies :: "normalized_requirement \<Rightarrow> instance_info \<Rightarrow> bool" where
  "qualifies req instance \<longleftrightarrow> vCPUs instance \<ge> n_CPU req \<and> MemoryMiB instance \<ge> n_RAM req"

definition as_best :: "string \<Rightarrow> instance_info \<Rightarrow> best_match" where
  "as_best instance_name instance =
     \<lparr>vCPUs = vCPUs instance, MemoryMiB = MemoryMiB instance, InstanceType = instance_name\<rparr>"

definition matched_record :: "normalized_requirement \<Rightarrow> best_match \<Rightarrow> matched_instance" where
  "matched_record req b =
     \<lparr>m_Server_Name = n_Server_Name req, m_IP_Address = n_IP_Address req,
      m_CPU = vCPUs b, m_RAM = MemoryMiB b, m_InstanceType = InstanceType b,
      m_Storage = n_Storage req, m_Database = n_Database req\<rparr>"

section \<open>Python numbers\<close>

text \<open>
  A Python \<^verbatim>\<open>float\<close> is an IEEE 754 binary64 value. \<open>Fin m e\<close> is the finite value
  \<open>m * 2 ^ e\<close>: a normal number has \<open>2 ^ 52 \<le> \<bar>m\<bar> < 2 ^ 53\<close> and \<open>- 1074 \<le> e \<le> 971\<close>, a
  subnormal number has \<open>\<bar>m\<bar> < 2 ^ 52\<close> and \<open>e = - 1074\<close>, and zero is \<open>Fin 0 0\<close>. The sign of
  zero is not modelled (\<^verbatim>\<open>-0.0 == 0.0\<close> in Python).
\<close>

datatype pyfloat = Fin int int | PInf | NInf | NaN

text \<open>\<^verbatim>\<open>int.bit_length()\<close> of a positive integer.\<close>

fun bit_length :: "int \<Rightarrow> nat" where
  "bit_length n = (if n \<le> 0 then 0 else Suc (bit_length (n div 2)))"

declare bit_length.simps [simp del]

text \<open>The integer nearest to \<open>a / b\<close> for \<open>0 < b\<close>, ties to the even one.\<close>

definition round_half_even :: "int \<Rightarrow> int \<Rightarrow> int" where
  "round_half_even a b =
     (let d = a div b; r = a mod b
      in if 2 * r < b then d else if b < 2 * r then d + 1 else if even d then d else d + 1)"

text \<open>
  Rounding of the positive rational \<open>p / q\<close> to the nearest binary64 value, ties to even:
  \<open>e1\<close> is the exponent of the leading bit of \<open>p / q\<close>, \<open>s\<close> the exponent of the last place
  kept, \<open>n\<close> the rounded significand. The result is \<open>None\<close> when the rounded value is
  \<open>2 ^ 1024\<close> or more.
\<close>

definition round_pos :: "int \<Rightarrow> int \<Rightarrow> (int \<times> int) option" where
  "round_pos p q =
     (let e0 = int (bit_length p) - int (bit_length q);
          e1 = (if q * 2 ^ nat e0 \<le> p * 2 ^ nat (- e0) then e0 else e0 - 1);
          e = max e1 (- 1022);
          s = e - 52;
          n = round_half_even (p * 2 ^ nat (- s)) (q * 2 ^ nat s)
      in if n = 0 then Some (0, 0)
         else if n = 2 ^ 53 then (if 1023 \<le> e then None else Some (2 ^ 52, s + 1))
         else if 1023 < e then None
         else Some (n, s))"

definition to_double :: "int \<Rightarrow> int \<Rightarrow> pyfloat" where
  "to_double p q =
     (if p = 0 then Fin 0 0
      else if 0 < p then (case round_pos p q of None \<Rightarrow> PInf | Some (m, e) \<Rightarrow> Fin m e)
      else (case round_pos (- p) q of None \<Rightarrow> NInf | Some (m, e) \<Rightarrow> Fin (- m) e))"

text \<open>The binary64 value nearest to \<open>m * 2 ^ e\<close>.\<close>

definition round_dyadic :: "int \<Rightarrow> int \<Rightarrow> pyfloat" where
  "round_dyadic m e = to_double (m * 2 ^ nat e) (2 ^ nat (- e))"

text \<open>
  A decimal literal of the source: \<open>float_lit m k\<close> is the float written \<open>m / 10 ^ k\<close>, so
  \<^verbatim>\<open>0.08\<close> is \<open>float_lit 8 2\<close> and \<^verbatim>\<open>0.045\<close> is \<open>float_lit 45 3\<close>.
\<close>

definition float_lit :: "int \<Rightarrow> nat \<Rightarrow> pyfloat" where
  "float_lit m k = to_double m (10 ^ k)"

text \<open>Addition and multiplication of floats; an overflow gives an infinity, not an error.\<close>

fun fadd :: "pyfloat \<Rightarrow> pyfloat \<Rightarrow> pyfloat" where
  "fadd (Fin m1 e1) (Fin m2 e2) =
     round_dyadic (m1 * 2 ^ nat (e1 - min e1 e2) + m2 * 2 ^ nat (e2 - min e1 e2)) (min e1 e2)"
| "fadd NaN y = NaN"
| "fadd x NaN = NaN"
| "fadd PInf NInf = NaN"
| "fadd NInf PInf = NaN"
| "fadd PInf y = PInf"
| "fadd x PInf = PInf"
| "fadd NInf y = NInf"
| "fadd x NInf = NInf"

definition inf_times :: "bool \<Rightarrow> int \<Rightarrow> pyfloat" where
  "inf_times positive m =
     (if m = 0 then NaN else if (0 < m) = positive then PInf else NInf)"

fun fmul :: "pyfloat \<Rightarrow> pyfloat \<Rightarrow> pyfloat" where
  "fmul (Fin m1 e1) (Fin m2 e2) = round_dyadic (m1 * m2) (e1 + e2)"
| "fmul NaN y = NaN"
| "fmul x NaN = NaN"
| "fmul PInf (Fin m e) = inf_times True m"
| "fmul NInf (Fin m e) = inf_times False m"
| "fmul (Fin m e) PInf = inf_times True m"
| "fmul (Fin m e) NInf = inf_times False m"
| "fmul PInf PInf = PInf"
| "fmul NInf NInf = PInf"
| "fmul PInf NInf = NInf"
| "fmul NInf PInf = NInf"

text \<open>The exceptions the modelled code can raise, and the values it computes with.\<close>

datatype error = TypeError | OverflowError | KeyError

datatype pyval = PStr string | PInt int | PFloat pyfloat

definition ebind :: "error + 'a \<Rightarrow> ('a \<Rightarrow> error + 'b) \<Rightarrow> error + 'b" where
  "ebind x f = (case x of Inl e \<Rightarrow> Inl e | Inr v \<Rightarrow> f v)"

text \<open>
  The conversion of an \<^verbatim>\<open>int\<close> operand to \<^verbatim>\<open>float\<close>, which raises \<^verbatim>\<open>OverflowError\<close>
  (int too large to convert to float) instead of giving an infinity.
\<close>

definition float_of_int :: "int \<Rightarrow> error + pyfloat" where
  "float_of_int n = (case to_double n 1 of Fin m e \<Rightarrow> Inr (Fin m e) | _ \<Rightarrow> Inl OverflowError)"

definition int_mul_float :: "int \<Rightarrow> pyfloat \<Rightarrow> error + pyfloat" where
  "int_mul_float n y = ebind (float_of_int n) (\<lambda>x. Inr (fmul x y))"

definition float_mul_int :: "pyfloat \<Rightarrow> int \<Rightarrow> error + pyfloat" where
  "float_mul_int x n = ebind (float_of_int n) (\<lambda>y. Inr (fmul x y))"

text \<open>The operator \<^verbatim>\<open>+\<close> on the values that occur.\<close>

fun py_add :: "pyval \<Rightarrow> pyval \<Rightarrow> error + pyval" where
  "py_add (PInt a) (PInt b) = Inr (PInt (a + b))"
| "py_add (PInt a) (PFloat y) = ebind (float_of_int a) (\<lambda>x. Inr (PFloat (fadd x y)))"
| "py_add (PFloat x) (PInt b) = ebind (float_of_int b) (\<lambda>y. Inr (PFloat (fadd x y)))"
| "py_add (PFloat x) (PFloat y) = Inr (PFloat (fadd x y))"
| "py_add (PStr a) (PStr b) = Inr (PStr (a @ b))"
| "py_add (PStr a) y = Inl TypeError"
| "py_add x (PStr b) = Inl TypeError"

text \<open>
  \<^verbatim>\<open>round(x, 2)\<close>. For a finite float it is the float nearest to the decimal with two
  places nearest to the exact value of \<open>x\<close>, ties to even, and \<^verbatim>\<open>OverflowError\<close> when that is
  out of range; an infinity or a NaN is returned as it is, and so is an \<^verbatim>\<open>int\<close>.
\<close>

fun float_round2 :: "pyfloat \<Rightarrow> error + pyfloat" where
  "float_round2 (Fin m e) =
     (case to_double (round_half_even (100 * m * 2 ^ nat e) (2 ^ nat (- e))) 100 of
        Fin m' e' \<Rightarrow> Inr (Fin m' e')
      | _ \<Rightarrow> Inl OverflowError)"
| "float_round2 x = Inr x"

fun py_round2 :: "pyval \<Rightarrow> error + pyval" where
  "py_round2 (PInt n) = Inr (PInt n)"
| "py_round2 (PFloat x) = ebind (float_round2 x) (\<lambda>r. Inr (PFloat r))"
| "py_round2 (PStr s) = Inl TypeError"

section \<open>Cost aggregation\<close>

definition storage_cost_per_gb :: "(string \<times> pyfloat) list" where
  "storage_cost_per_gb =
     [(''SSD'', float_lit 8 2), (''HDD'', float_lit 45 3), (''NVME'', float_lit 10 2)]"

text \<open>
  The body of the loop of \<^verbatim>\<open>calculate_storage_cost\<close> for one piece of the descriptor. The
  state is \<^verbatim>\<open>total_cost\<close> and the lines printed so far.
\<close>

definition storage_step :: "string \<Rightarrow> pyval \<times> string list \<Rightarrow> error + pyval \<times> string list" where
  "storage_step item st =
     (let total_cost = fst st; printed = snd st;
          storage = py_strip item;
          size_match = re_search match_size storage;
          type_match = re_search match_type storage
      in case (size_match, type_match) of
           (Some (digits, unit), Some type_group) \<Rightarrow>
             (let size_value = py_int digits;
                  size_unit = upper unit;
                  storage_type = upper (py_strip type_group);
                  size_gb = (if size_unit = ''TB'' then size_value * 1024 else size_value)
              in case map_of storage_cost_per_gb storage_type of
                   Some cost_per_gb \<Rightarrow>
                     ebind (int_mul_float size_gb cost_per_gb) (\<lambda>cost.
                     ebind (py_add total_cost (PFloat cost)) (\<lambda>total_cost'.
                     Inr (total_cost', printed)))
                 | None \<Rightarrow> Inr (total_cost, printed))
         | _ \<Rightarrow>
             Inr (total_cost, printed @ [''DEBUG: Skipping invalid storage entry: '' @ storage]))"

fun storage_loop :: "string list \<Rightarrow> pyval \<times> string list \<Rightarrow> error + pyval \<times> string list" where
  "storage_loop [] st = Inr st"
| "storage_loop (item # items) st =
     (case storage_step item st of Inl e \<Rightarrow> Inl e | Inr st' \<Rightarrow> storage_loop items st')"

text \<open>The result of \<^verbatim>\<open>calculate_storage_cost\<close> together with what it prints.\<close>

definition calculate_storage_cost_io :: "string \<Rightarrow> error + pyval \<times> string list" where
  "calculate_storage_cost_io storage_str =
     ebind (storage_loop (split_plus storage_str) (PInt 0, [])) (\<lambda>st.
     ebind (py_round2 (fst st)) (\<lambda>r. Inr (r, snd st)))"

definition calculate_storage_cost :: "string \<Rightarrow> error + pyval" where
  "calculate_storage_cost storage_str =
     ebind (calculate_storage_cost_io storage_str) (\<lambda>res. Inr (fst res))"

definition database_cost_per_gb :: "(string \<times> pyfloat) list" where
  "database_cost_per_gb =
     [(''MySQL'', float_lit 10 2), (''PostgreSQL'', float_lit 10 2),
      (''Microsoft SQL Server'', float_lit 20 2), (''Oracle Database'', float_lit 30 2),
      (''Redis'', float_lit 15 2)]"

definition calculate_database_cost :: "string \<Rightarrow> string \<Rightarrow> error + pyval" where
  "calculate_database_cost database storage_str =
     (if database = ''None'' \<or> map_of database_cost_per_gb database = None
      then Inr (PFloat (float_lit 0 1))
      else case re_search match_size storage_str of
             None \<Rightarrow> Inr (PFloat (float_lit 0 1))
           | Some (digits, unit) \<Rightarrow>
               (let size_value = py_int digits;
                    size_unit = upper unit;
                    size_gb = (if size_unit = ''TB'' then size_value * 1024 else size_value)
                in case map_of database_cost_per_gb database of
                     None \<Rightarrow> Inl KeyError
                   | Some cost_per_gb \<Rightarrow>
                       ebind (int_mul_float size_gb cost_per_gb) (\<lambda>total_cost.
                       py_round2 (PFloat total_cost))))"

section \<open>The handler\<close>

text \<open>A matched record after the pricing loop has added its four cost entries.\<close>

record priced_instance = matched_instance +
  Monthly_Cost :: pyval
  Monthly_Storage_Cost :: pyval
  Monthly_Database_Cost :: pyval
  Total_Pricing :: pyval

text \<open>
  The four collaborators do not raise: each catches its own exceptions and returns an
  empty catalog, an empty list, \<^verbatim>\<open>None\<close> or \<^verbatim>\<open>False\<close>. They are given by what they return.
  The calls made to them are recorded in a trace.
\<close>

record collaborators =
  fetch_ec2_instance_types :: catalog
  fetch_requirements_from_s3 :: "requirement list"
  get_instance_price :: "string \<Rightarrow> pyfloat option"
  store_results_in_s3_csv :: "priced_instance list \<Rightarrow> bool"
  BUCKET_NAME :: string

datatype event =
    Fetch_instance_types
  | Fetch_requirements
  | Get_price string
  | Store_results "priced_instance list"

text \<open>
  The body of the pricing loop of \<^verbatim>\<open>lambda_handler\<close> for one matched record, after the
  price lookup.
\<close>

definition price_instance :: "pyfloat option \<Rightarrow> matched_instance \<Rightarrow> error + priced_instance" where
  "price_instance hourly_price instance =
     ebind (case hourly_price of
              Some price \<Rightarrow>
                ebind (float_mul_int price 24) (\<lambda>x.
                ebind (float_mul_int x 30) (\<lambda>monthly_cost.
                py_round2 (PFloat monthly_cost)))
            | None \<Rightarrow> Inr (PStr ''Price Not Available'')) (\<lambda>monthly.
     ebind (calculate_storage_cost (m_Storage instance)) (\<lambda>storage_cost.
     ebind (calculate_database_cost (m_Database instance) (m_Storage instance)) (\<lambda>database_cost.
     ebind (py_add monthly storage_cost) (\<lambda>sum1.
     ebind (py_add sum1 database_cost) (\<lambda>sum2.
     ebind (py_round2 sum2) (\<lambda>total.
     Inr (matched_instance.extend instance
            (priced_instance.fields monthly storage_cost database_cost total))))))))"

fun pricing_loop :: "(string \<Rightarrow> pyfloat option) \<Rightarrow> matched_instance list \<Rightarrow>
    priced_instance list \<Rightarrow> event list \<Rightarrow> (error + priced_instance list) \<times> event list" where
  "pricing_loop price [] priced trace = (Inr priced, trace)"
| "pricing_loop price (instance # rest) priced trace =
     (let instance_type = m_InstanceType instance;
          hourly_price = price instance_type;
          trace' = trace @ [Get_price instance_type]
      in case price_instance hourly_price instance of
           Inl e \<Rightarrow> (Inl e, trace')
         | Inr p \<Rightarrow> pricing_loop price rest (priced @ [p]) trace')"

text \<open>
  The response of the handler; \<open>body\<close> is the text given to \<^verbatim>\<open>json.dumps\<close>, and for the
  \<^verbatim>\<open>except\<close> branch the exception that was caught.
\<close>

datatype response_body = Message string | Unexpected_error error

record response =
  statusCode :: int
  body :: response_body

definition lambda_handler :: "collaborators \<Rightarrow> response \<times> event list" where
  "lambda_handler c =
     (let ec2_instances = fetch_ec2_instance_types c;
          requirements = fetch_requirements_from_s3 c;
          trace = [Fetch_instance_types, Fetch_requirements]
      in if requirements = []
         then (\<lparr>statusCode = 500, body = Message ''Failed to fetch requirements from S3.''\<rparr>,
               trace)
         else
          (let filtered_data = extract_cpu_ram requirements;
               matched_instances = find_best_match filtered_data ec2_instances
           in case pricing_loop (get_instance_price c) matched_instances [] trace of
                (Inl e, trace') \<Rightarrow> (\<lparr>statusCode = 500, body = Unexpected_error e\<rparr>, trace')
              | (Inr priced, trace') \<Rightarrow>
                  (if store_results_in_s3_csv c priced
                   then (\<lparr>statusCode = 200,
                           body = Message (''CSV stored successfully at s3://'' @ BUCKET_NAME c @
                                    ''/matched_ec2_db_instances.csv'')\<rparr>,
                         trace' @ [Store_results priced])
                   else (\<lparr>statusCode = 500,
                           body = Message ''Failed to upload CSV results to S3.''\<rparr>,
                         trace' @ [Store_results priced]))))"

section \<open>The cost computations as the specification words them\<close>

text \<open>
  A size is one or more digits followed by \<^verbatim>\<open>GB\<close> or \<^verbatim>\<open>TB\<close> in any case; a type keyword
  is \<^verbatim>\<open>SSD\<close>, \<^verbatim>\<open>HDD\<close> or \<^verbatim>\<open>NVMe\<close> in any case. \<open>size_at\<close> and \<open>type_at\<close> say that one
  starts at the beginning of the text.
\<close>

definition size_at :: "string \<Rightarrow> string \<times> string \<Rightarrow> bool" where
  "size_at t g \<longleftrightarrow>
     (case g of (ds, u) \<Rightarrow> ds \<noteq> [] \<and> list_all is_digit ds \<and>
        (upper u = ''TB'' \<or> upper u = ''GB'') \<and> (\<exists>post. t = ds @ u @ post))"

definition type_at :: "string \<Rightarrow> string \<Rightarrow> bool" where
  "type_at t ty \<longleftrightarrow>
     (upper ty = ''SSD'' \<or> upper ty = ''HDD'' \<or> upper ty = ''NVME'') \<and> (\<exists>post. t = ty @ post)"

definition has_size_pattern :: "string \<Rightarrow> bool" where
  "has_size_pattern s \<longleftrightarrow> (\<exists>pre t g. s = pre @ t \<and> size_at t g)"

definition has_type_keyword :: "string \<Rightarrow> bool" where
  "has_type_keyword s \<longleftrightarrow> (\<exists>pre t ty. s = pre @ t \<and> type_at t ty)"

text \<open>A size in gigabytes, with 1 TB = 1024 GB.\<close>

definition gigabytes :: "string \<times> string \<Rightarrow> int" where
  "gigabytes g = (case g of (ds, u) \<Rightarrow> if upper u = ''TB'' then py_int ds * 1024 else py_int ds)"

text \<open>The rate per gigabyte of a type keyword: SSD 0.08, HDD 0.045, NVMe 0.10.\<close>

definition storage_rate :: "string \<Rightarrow> pyfloat" where
  "storage_rate ty =
     (if upper ty = ''SSD'' then float_lit 8 2
      else if upper ty = ''HDD'' then float_lit 45 3
      else float_lit 10 2)"

text \<open>
  The test the code applies to a component, and the cost it adds for a component that passes:
  the two searches of the source and the size and type they find.
\<close>

definition valid_component :: "string \<Rightarrow> bool" where
  "valid_component c \<longleftrightarrow> re_search match_size c \<noteq> None \<and> re_search match_type c \<noteq> None"

definition component_cost :: "string \<Rightarrow> error + pyfloat" where
  "component_cost c =
     (case (re_search match_size c, re_search match_type c) of
        (Some g, Some ty) \<Rightarrow> int_mul_float (gigabytes g) (storage_rate ty)
      | _ \<Rightarrow> Inr (Fin 0 0))"

text \<open>The results of a list of computations, or the first exception.\<close>

fun collect :: "(error + 'a) list \<Rightarrow> error + 'a list" where
  "collect [] = Inr []"
| "collect (Inl e # xs) = Inl e"
| "collect (Inr v # xs) = (case collect xs of Inl e \<Rightarrow> Inl e | Inr vs \<Rightarrow> Inr (v # vs))"

text \<open>Python's \<^verbatim>\<open>sum\<close>: the values added from left to right, starting from the integer 0.\<close>

fun py_sum_from :: "pyval \<Rightarrow> pyval list \<Rightarrow> error + pyval" where
  "py_sum_from acc [] = Inr acc"
| "py_sum_from acc (x # xs) =
     (case py_add acc x of Inl e \<Rightarrow> Inl e | Inr acc' \<Rightarrow> py_sum_from acc' xs)"

definition py_sum :: "pyval list \<Rightarrow> error + pyval" where
  "py_sum xs = py_sum_from (PInt 0) xs"

text \<open>
  The rates of the specification, for a type keyword in any case, and nothing for any other
  text.
\<close>

definition spec_rate :: "string \<Rightarrow> pyfloat option" where
  "spec_rate ty =
     (if upper ty = ''SSD'' then Some (float_lit 8 2)
      else if upper ty = ''HDD'' then Some (float_lit 45 3)
      else if upper ty = ''NVME'' then Some (float_lit 10 2)
      else None)"

text \<open>
  Rounding to two places: \<open>n\<close> is an integer nearest to one hundred times \<open>m * 2 ^ e\<close>, so
  that \<open>n / 100\<close> is a decimal with two places nearest to \<open>m * 2 ^ e\<close>. The inequality is
  \<open>\<bar>100 * m * 2 ^ e - n\<bar> \<le> 1 / 2\<close> with the denominators cleared.
\<close>

definition nearest_cents :: "int \<Rightarrow> int \<Rightarrow> int \<Rightarrow> bool" where
  "nearest_cents m e n \<longleftrightarrow>
     2 * \<bar>100 * m * 2 ^ nat e - n * 2 ^ nat (- e)\<bar> \<le> 2 ^ nat (- e)"

text \<open>
  The storage cost: split at the plus signs, keep the components that have a size and a type
  keyword, take the cost of each, sum, round to two places.
\<close>

definition storage_cost_spec :: "string \<Rightarrow> error + pyval" where
  "storage_cost_spec s =
     ebind (collect (map component_cost
              (filter (\<lambda>c. has_size_pattern c \<and> has_type_keyword c)
                 (map py_strip (split_plus s)))))
       (\<lambda>costs. ebind (py_sum (map PFloat costs)) py_round2)"

text \<open>
  The grammar of a component in the specification: an integer, a unit, optional white space,
  a type. \<open>grammar_at\<close> says that the text starts with such a component, and a text contains
  one when some part of it does.
\<close>

definition grammar_at :: "string \<Rightarrow> bool" where
  "grammar_at t \<longleftrightarrow>
     (\<exists>ds u ws ty post. t = ds @ u @ ws @ ty @ post \<and> ds \<noteq> [] \<and> list_all is_digit ds \<and>
        (upper u = ''TB'' \<or> upper u = ''GB'') \<and> list_all is_space ws \<and>
        (upper ty = ''SSD'' \<or> upper ty = ''HDD'' \<or> upper ty = ''NVME''))"

definition contains_grammar :: "string \<Rightarrow> bool" where
  "contains_grammar s \<longleftrightarrow> (\<exists>pre t. s = pre @ t \<and> grammar_at t)"

text \<open>The grammar as an anchored pattern, in the manner of the patterns of the source.\<close>

definition match_grammar :: "string \<Rightarrow> unit option" where
  "match_grammar t =
     (let ds = takeWhile is_digit t; r = dropWhile is_digit t; u = take 2 r;
          r' = dropWhile is_space (drop 2 r)
      in if ds \<noteq> [] \<and> (upper u = ''TB'' \<or> upper u = ''GB'') \<and> match_type r' \<noteq> None
         then Some () else None)"

section \<open>Facts about the searches\<close>

lemma is_space_not_digit: "is_space c \<Longrightarrow> \<not> is_digit c"
  by (auto simp: is_space_def is_digit_def)

lemma re_search_None_iff: "re_search m s = None \<longleftrightarrow> (\<forall>pre t. s = pre @ t \<longrightarrow> m t = None)"
proof (induction s)
  case Nil
  then show ?case by simp
next
  case (Cons c cs)
  show ?case
  proof
    assume a: "re_search m (c # cs) = None"
    then have h: "m (c # cs) = None" and r: "re_search m cs = None"
      by (auto split: option.splits)
    show "\<forall>pre t. c # cs = pre @ t \<longrightarrow> m t = None"
    proof (intro allI impI)
      fix pre t assume e: "c # cs = pre @ t"
      show "m t = None"
      proof (cases pre)
        case Nil
        with e h show ?thesis by simp
      next
        case (Cons p ps)
        with e have "cs = ps @ t" by simp
        with r Cons.IH show ?thesis by blast
      qed
    qed
  next
    assume a: "\<forall>pre t. c # cs = pre @ t \<longrightarrow> m t = None"
    then have h: "m (c # cs) = None" by (metis append_Nil)
    have "\<forall>pre t. cs = pre @ t \<longrightarrow> m t = None"
      using a by (metis append_Cons)
    with Cons.IH have "re_search m cs = None" by blast
    with h show "re_search m (c # cs) = None" by simp
  qed
qed

lemma re_search_Some_iff:
  "re_search m s = Some g \<longleftrightarrow>
     (\<exists>pre t. s = pre @ t \<and> m t = Some g \<and>
        (\<forall>pre' t'. s = pre' @ t' \<and> length pre' < length pre \<longrightarrow> m t' = None))"
proof (induction s)
  case Nil
  then show ?case by auto
next
  case (Cons c cs)
  show ?case
  proof (cases "m (c # cs)")
    case None
    have "re_search m (c # cs) = Some g \<longleftrightarrow> re_search m cs = Some g"
      using None by simp
    also have "\<dots> \<longleftrightarrow> (\<exists>pre t. cs = pre @ t \<and> m t = Some g \<and>
        (\<forall>pre' t'. cs = pre' @ t' \<and> length pre' < length pre \<longrightarrow> m t' = None))"
      by (rule Cons.IH)
    also have "\<dots> \<longleftrightarrow> (\<exists>pre t. c # cs = pre @ t \<and> m t = Some g \<and>
        (\<forall>pre' t'. c # cs = pre' @ t' \<and> length pre' < length pre \<longrightarrow> m t' = None))"
      (is "?L \<longleftrightarrow> ?R")
    proof
      assume ?L
      then obtain pre t where p: "cs = pre @ t" "m t = Some g"
        and q: "\<forall>pre' t'. cs = pre' @ t' \<and> length pre' < length pre \<longrightarrow> m t' = None"
        by blast
      have "\<forall>pre' t'. c # cs = pre' @ t' \<and> length pre' < length (c # pre) \<longrightarrow> m t' = None"
      proof (intro allI impI)
        fix pre' t' assume e: "c # cs = pre' @ t' \<and> length pre' < length (c # pre)"
        show "m t' = None"
        proof (cases pre')
          case Nil
          with e None show ?thesis by simp
        next
          case (Cons x xs)
          with e have "cs = xs @ t'" "length xs < length pre" by auto
          with q show ?thesis by blast
        qed
      qed
      moreover have "c # cs = (c # pre) @ t" using p by simp
      ultimately show ?R using p(2) by blast
    next
      assume ?R
      then obtain pre t where p: "c # cs = pre @ t" "m t = Some g"
        and q: "\<forall>pre' t'. c # cs = pre' @ t' \<and> length pre' < length pre \<longrightarrow> m t' = None"
        by blast
      from p None obtain ps where ps: "pre = c # ps" by (cases pre) auto
      with p have e: "cs = ps @ t" by simp
      have "\<forall>pre' t'. cs = pre' @ t' \<and> length pre' < length ps \<longrightarrow> m t' = None"
      proof (intro allI impI)
        fix pre' t' assume a: "cs = pre' @ t' \<and> length pre' < length ps"
        then have "c # cs = (c # pre') @ t' \<and> length (c # pre') < length pre"
          using ps by simp
        with q show "m t' = None" by blast
      qed
      with e p(2) show ?L by blast
    qed
    finally show ?thesis .
  next
    case (Some h)
    show ?thesis
    proof
      assume "re_search m (c # cs) = Some g"
      with Some have "m (c # cs) = Some g" by simp
      then have "c # cs = [] @ (c # cs) \<and> m (c # cs) = Some g \<and>
        (\<forall>pre' t'. c # cs = pre' @ t' \<and> length pre' < length ([]::string) \<longrightarrow> m t' = None)"
        by simp
      then show "\<exists>pre t. c # cs = pre @ t \<and> m t = Some g \<and>
        (\<forall>pre' t'. c # cs = pre' @ t' \<and> length pre' < length pre \<longrightarrow> m t' = None)"
        by blast
    next
      assume "\<exists>pre t. c # cs = pre @ t \<and> m t = Some g \<and>
        (\<forall>pre' t'. c # cs = pre' @ t' \<and> length pre' < length pre \<longrightarrow> m t' = None)"
      then obtain pre t where p: "c # cs = pre @ t" "m t = Some g"
        and q: "\<forall>pre' t'. c # cs = pre' @ t' \<and> length pre' < length pre \<longrightarrow> m t' = None"
        by blast
      have "pre = []"
      proof (rule ccontr)
        assume "pre \<noteq> []"
        then have "c # cs = [] @ (c # cs) \<and> length ([]::string) < length pre" by simp
        with q have "m (c # cs) = None" by blast
        with Some show False by simp
      qed
      with p have "m (c # cs) = Some g" by simp
      then show "re_search m (c # cs) = Some g" by simp
    qed
  qed
qed

lemma takeWhile_run:
  assumes "list_all P xs" and "ys = [] \<or> \<not> P (hd ys)"
  shows "takeWhile P (xs @ ys) = xs" and "dropWhile P (xs @ ys) = ys"
proof -
  have a: "\<And>x. x \<in> set xs \<Longrightarrow> P x" using assms(1) by (simp add: list_all_iff)
  have t: "takeWhile P ys = []" and d: "dropWhile P ys = ys"
    using assms(2) by (cases ys; auto)+
  show "takeWhile P (xs @ ys) = xs" using a t by (simp add: takeWhile_append2)
  show "dropWhile P (xs @ ys) = ys" using a d by (simp add: dropWhile_append2)
qed

lemma match_cores_iff: "match_cores t = Some ds \<longleftrightarrow> cores_at t ds"
proof
  assume m: "match_cores t = Some ds"
  let ?r = "dropWhile is_digit t"
  let ?ws = "takeWhile is_space ?r"
  let ?r' = "dropWhile is_space ?r"
  from m have ds: "ds = takeWhile is_digit t" and ne: "ds \<noteq> []" and wne: "?ws \<noteq> []"
    and c: "take 5 ?r' = ''Cores''"
    by (auto simp: match_cores_def Let_def split: if_splits)
  have "?r' = take 5 ?r' @ drop 5 ?r'" by simp
  with c have r': "?r' = ''Cores'' @ drop 5 ?r'" by metis
  have "t = ds @ ?r" using ds by simp
  also have "?r = ?ws @ ?r'" by simp
  finally have "t = ds @ ?ws @ ''Cores'' @ drop 5 ?r'" using r' by metis
  moreover have "list_all is_digit ds" using ds by (simp add: list_all_iff) (meson set_takeWhileD)
  moreover have "list_all is_space ?ws" by (simp add: list_all_iff) (meson set_takeWhileD)
  ultimately show "cores_at t ds" using ne wne unfolding cores_at_def by blast
next
  assume "cores_at t ds"
  then obtain ws post where ne: "ds \<noteq> []" and d: "list_all is_digit ds" and wne: "ws \<noteq> []"
    and w: "list_all is_space ws" and t: "t = ds @ ws @ ''Cores'' @ post"
    unfolding cores_at_def by blast
  have hw: "is_space (hd ws)" using wne w by (cases ws) auto
  then have nd: "\<not> is_digit (hd (ws @ ''Cores'' @ post))" using wne by (simp add: is_space_not_digit)
  have 1: "takeWhile is_digit t = ds" and 2: "dropWhile is_digit t = ws @ ''Cores'' @ post"
    unfolding t using takeWhile_run[OF d, of "ws @ ''Cores'' @ post"] nd by auto
  have nc: "\<not> is_space (hd (''Cores'' @ post))" by (simp add: is_space_def)
  have 3: "takeWhile is_space (ws @ ''Cores'' @ post) = ws"
    and 4: "dropWhile is_space (ws @ ''Cores'' @ post) = ''Cores'' @ post"
    using takeWhile_run[OF w, of "''Cores'' @ post"] nc by auto
  show "match_cores t = Some ds"
    unfolding match_cores_def Let_def 1 2 3 4 using ne wne by simp
qed

lemma match_gb_iff: "match_gb t = Some ds \<longleftrightarrow> gb_at t ds"
proof
  assume m: "match_gb t = Some ds"
  let ?r = "dropWhile is_digit t"
  from m have ds: "ds = takeWhile is_digit t" and ne: "ds \<noteq> []" and c: "take 2 ?r = ''GB''"
    by (auto simp: match_gb_def Let_def split: if_splits)
  have "?r = take 2 ?r @ drop 2 ?r" by simp
  with c have r': "?r = ''GB'' @ drop 2 ?r" by metis
  have "t = ds @ ?r" using ds by simp
  then have "t = ds @ ''GB'' @ drop 2 ?r" using r' by metis
  moreover have "list_all is_digit ds" using ds by (simp add: list_all_iff) (meson set_takeWhileD)
  ultimately show "gb_at t ds" using ne unfolding gb_at_def by blast
next
  assume "gb_at t ds"
  then obtain post where ne: "ds \<noteq> []" and d: "list_all is_digit ds" and t: "t = ds @ ''GB'' @ post"
    unfolding gb_at_def by blast
  have nd: "\<not> is_digit (hd (''GB'' @ post))" by (simp add: is_digit_def)
  have 1: "takeWhile is_digit t = ds" and 2: "dropWhile is_digit t = ''GB'' @ post"
    unfolding t using takeWhile_run[OF d, of "''GB'' @ post"] nd by auto
  show "match_gb t = Some ds"
    unfolding match_gb_def Let_def 1 2 using ne by simp
qed

lemma search_first_match:
  assumes iff: "\<And>t g. m t = Some g \<longleftrightarrow> at t g"
  shows "re_search m s = Some g \<longleftrightarrow> first_match at s g"
proof -
  have none: "\<And>t. m t = None \<longleftrightarrow> (\<forall>g'. \<not> at t g')"
    using iff by (metis option.exhaust option.distinct(1))
  show ?thesis
    unfolding re_search_Some_iff first_match_def none iff by blast
qed

lemma search_has_pattern:
  assumes iff: "\<And>t g. m t = Some g \<longleftrightarrow> at t g"
  shows "re_search m s = None \<longleftrightarrow> \<not> (\<exists>pre t g. s = pre @ t \<and> at t g)"
proof -
  have none: "\<And>t. m t = None \<longleftrightarrow> (\<forall>ds'. \<not> at t ds')"
    using iff by (metis option.exhaust option.distinct(1))
  show ?thesis unfolding re_search_None_iff none by blast
qed

section \<open>Facts about the parser and the matcher\<close>

lemma extract_loop_acc: "extract_loop reqs acc = acc @ extract_loop reqs []"
proof (induction reqs arbitrary: acc)
  case Nil
  then show ?case by simp
next
  case (Cons req rest)
  show ?case
    using Cons.IH[of "acc @ [x]" for x] Cons.IH[of "[x]" for x] Cons.IH[of acc]
    by (simp split: option.splits)
qed

lemma parse_eq:
  "parse raw =
     (case (re_search match_cores (raw_CPU raw), re_search match_gb (raw_RAM raw)) of
        (Some cpu_group, Some ram_group) \<Rightarrow>
          Some \<lparr>n_Server_Name = raw_Server_Name raw, n_IP_Address = raw_IP_Address raw,
                n_CPU = py_int cpu_group, n_RAM = py_int ram_group,
                n_Storage = raw_Storage raw, n_Database = raw_Database raw\<rparr>
      | _ \<Rightarrow> None)"
  by (simp add: parse_def extract_cpu_ram_def split: option.splits)

lemma extract_cpu_ram_map_filter: "extract_cpu_ram reqs = List.map_filter parse reqs"
proof (induction reqs)
  case Nil
  then show ?case by (simp add: extract_cpu_ram_def)
next
  case (Cons req rest)
  then show ?case
    using extract_loop_acc[of rest "[x]" for x]
    by (simp add: extract_cpu_ram_def parse_eq split: option.splits)
qed

lemma extract_loop_ec2_acc: "extract_loop_ec2 reqs acc = acc @ extract_loop_ec2 reqs []"
proof (induction reqs arbitrary: acc)
  case Nil
  then show ?case by simp
next
  case (Cons req rest)
  show ?case
    using Cons.IH[of "acc @ [x]" for x] Cons.IH[of "[x]" for x] Cons.IH[of acc]
    by (simp split: option.splits)
qed

lemma parse_ec2_eq:
  "parse_ec2 raw =
     (case (re_search match_cores (raw_CPU raw), re_search match_gb (raw_RAM raw)) of
        (Some cpu_group, Some ram_group) \<Rightarrow>
          Some \<lparr>n_Server_Name = raw_Server_Name raw, n_IP_Address = raw_IP_Address raw,
                n_CPU = py_int cpu_group, n_RAM = py_int ram_group\<rparr>
      | _ \<Rightarrow> None)"
  by (simp add: parse_ec2_def extract_cpu_ram_ec2_def split: option.splits)

lemma parse_ec2_truncate: "parse_ec2 raw = map_option normalized_ec2.truncate (parse raw)"
  by (simp add: parse_eq parse_ec2_eq normalized_ec2.truncate_def split: option.splits)

lemma parse_None_iff:
  "parse raw = None \<longleftrightarrow> \<not> has_cores_pattern (raw_CPU raw) \<or> \<not> has_gb_pattern (raw_RAM raw)"
proof -
  have "parse raw = None \<longleftrightarrow>
      re_search match_cores (raw_CPU raw) = None \<or> re_search match_gb (raw_RAM raw) = None"
    by (simp add: parse_eq split: option.splits)
  then show ?thesis
    unfolding search_has_pattern[of match_cores cores_at, OF match_cores_iff]
      search_has_pattern[of match_gb gb_at, OF match_gb_iff]
      has_cores_pattern_def has_gb_pattern_def .
qed

lemma parse_Some_groups:
  assumes "parse raw = Some n"
  shows "\<exists>cs rs. first_match cores_at (raw_CPU raw) cs \<and> first_match gb_at (raw_RAM raw) rs \<and>
           n_CPU n = py_int cs \<and> n_RAM n = py_int rs"
proof -
  from assms obtain cs rs where c: "re_search match_cores (raw_CPU raw) = Some cs"
    and r: "re_search match_gb (raw_RAM raw) = Some rs"
    and n: "n_CPU n = py_int cs" "n_RAM n = py_int rs"
    by (auto simp: parse_eq split: option.splits)
  from c have "first_match cores_at (raw_CPU raw) cs"
    by (simp add: search_first_match[of match_cores cores_at, OF match_cores_iff])
  moreover from r have "first_match gb_at (raw_RAM raw) rs"
    by (simp add: search_first_match[of match_gb gb_at, OF match_gb_iff])
  ultimately show ?thesis using n by blast
qed

lemma first_match_unique:
  assumes det: "\<And>t g g'. at t g \<Longrightarrow> at t g' \<Longrightarrow> g' = g"
    and "first_match at s g" and "first_match at s g'"
  shows "g' = g"
proof -
  from assms(2) obtain pre t where 1: "s = pre @ t" "at t g"
    "\<forall>pre' t' d. s = pre' @ t' \<and> length pre' < length pre \<longrightarrow> \<not> at t' d"
    unfolding first_match_def by blast
  from assms(3) obtain pre2 t2 where 2: "s = pre2 @ t2" "at t2 g'"
    "\<forall>pre' t' d. s = pre' @ t' \<and> length pre' < length pre2 \<longrightarrow> \<not> at t' d"
    unfolding first_match_def by blast
  have "\<not> length pre < length pre2" using 1 2 by blast
  moreover have "\<not> length pre2 < length pre" using 1 2 by blast
  ultimately have "length pre = length pre2" by simp
  with 1(1) 2(1) have "t = t2" by (metis append_eq_append_conv)
  with 1 2 det show ?thesis by blast
qed

lemma best_match_loop_snoc:
  "best_match_loop req (cat @ [(instance_name, instance)]) best =
     (let b = best_match_loop req cat best in
      if qualifies req instance then
        (case b of None \<Rightarrow> Some (as_best instance_name instance)
         | Some b' \<Rightarrow> if vCPUs instance < vCPUs b' \<or> MemoryMiB instance < MemoryMiB b'
                      then Some (as_best instance_name instance) else Some b')
      else b)"
proof (induction cat arbitrary: best)
  case Nil
  then show ?case by (simp add: qualifies_def as_best_def split: option.splits)
next
  case (Cons a cat)
  obtain nm inst where a: "a = (nm, inst)" by (cases a)
  show ?case unfolding a by (simp add: Cons.IH)
qed

lemma best_match_loop_Some: "\<exists>b'. best_match_loop req cat (Some b) = Some b'"
proof (induction cat arbitrary: b)
  case Nil
  then show ?case by simp
next
  case (Cons a cat)
  obtain nm inst where a: "a = (nm, inst)" by (cases a)
  show ?case unfolding a using Cons.IH by simp
qed

lemma best_match_loop_None_iff:
  "best_match_loop req cat best = None \<longleftrightarrow>
     best = None \<and> (\<forall>(instance_name, instance) \<in> set cat. \<not> qualifies req instance)"
proof (induction cat arbitrary: best)
  case Nil
  then show ?case by simp
next
  case (Cons a cat)
  obtain nm inst where a: "a = (nm, inst)" by (cases a)
  show ?case
  proof (cases best)
    case None
    show ?thesis
    proof (cases "qualifies req inst")
      case True
      then show ?thesis
        unfolding a None using best_match_loop_Some[of req cat]
        by (simp add: qualifies_def)
    next
      case False
      then show ?thesis unfolding a None using Cons.IH[of None]
        by (auto simp: qualifies_def)
    qed
  next
    case (Some b)
    then show ?thesis using best_match_loop_Some[of req "a # cat" b] by auto
  qed
qed

lemma best_match_loop_sufficient:
  assumes "best_match_loop req cat best = Some b"
    and "\<And>b0. best = Some b0 \<Longrightarrow> P b0"
    and "\<And>instance_name instance. (instance_name, instance) \<in> set cat \<Longrightarrow> qualifies req instance \<Longrightarrow> P (as_best instance_name instance)"
  shows "P b"
  using assms
proof (induction cat arbitrary: best)
  case Nil
  then show ?case by simp
next
  case (Cons a cat)
  obtain nm inst where a: "a = (nm, inst)" by (cases a)
  show ?case
  proof (cases "qualifies req inst \<and> (case best of None \<Rightarrow> True
             | Some b \<Rightarrow> vCPUs inst < vCPUs b \<or> MemoryMiB inst < MemoryMiB b)")
    case True
    then have "best_match_loop req cat (Some (as_best nm inst)) = Some b"
      using Cons.prems(1) unfolding a by (simp add: qualifies_def as_best_def)
    moreover have "P (as_best nm inst)" using Cons.prems(3)[of nm inst] True a by simp
    ultimately show ?thesis using Cons.IH[of "Some (as_best nm inst)"] Cons.prems(3) by simp
  next
    case False
    then have "best_match_loop req cat best = Some b"
      using Cons.prems(1) unfolding a by (auto simp: qualifies_def split: if_splits)
    then show ?thesis using Cons.IH[of best] Cons.prems(2,3) by simp
  qed
qed

lemma find_loop_acc: "find_loop reqs cat acc = acc @ find_loop reqs cat []"
proof (induction reqs arbitrary: acc)
  case Nil
  then show ?case by simp
next
  case (Cons req rest)
  show ?case
    using Cons.IH[of "acc @ [x]" for x] Cons.IH[of "[x]" for x] Cons.IH[of acc]
    by (simp split: option.splits)
qed

lemma find_best_match_map_filter:
  "find_best_match reqs cat =
     List.map_filter (\<lambda>req. map_option (matched_record req) (select_instance req cat)) reqs"
proof (induction reqs)
  case Nil
  then show ?case by (simp add: find_best_match_def)
next
  case (Cons req rest)
  then show ?case
    using find_loop_acc[of rest cat "[x]" for x]
    by (simp add: find_best_match_def select_instance_def matched_record_def
        split: option.splits)
qed

section \<open>The requirement parser: claims\<close>

text \<open>
  C4. \<^verbatim>\<open>extract_cpu_ram\<close> drops a record exactly when its CPU text has no match of one or more
  digits, white space and \<^verbatim>\<open>Cores\<close>, or its RAM text has no match of one or more digits
  followed at once by \<^verbatim>\<open>GB\<close>. When both match, the numbers of the normalized record are the
  values of the digit groups of the first match of each text. A CPU text \<^verbatim>\<open>4 Cores\<close> with a RAM
  text \<^verbatim>\<open>16GB\<close> gives CPU 4 and RAM 16; a CPU text \<^verbatim>\<open>four cores\<close> gives no record. The
  function treats the records of a list one by one.
\<close>

theorem extract_cpu_ram_patterns:
  "(parse raw = None \<longleftrightarrow> \<not> has_cores_pattern (raw_CPU raw) \<or> \<not> has_gb_pattern (raw_RAM raw)) \<and>
   (\<forall>n. parse raw = Some n \<longrightarrow>
      (\<exists>cs rs. first_match cores_at (raw_CPU raw) cs \<and> first_match gb_at (raw_RAM raw) rs \<and>
         n_CPU n = py_int cs \<and> n_RAM n = py_int rs)) \<and>
   (\<exists>n. parse (raw\<lparr>raw_CPU := ''4 Cores'', raw_RAM := ''16GB''\<rparr>) = Some n \<and>
      n_CPU n = 4 \<and> n_RAM n = 16) \<and>
   parse (raw\<lparr>raw_CPU := ''four cores'', raw_RAM := ''16GB''\<rparr>) = None \<and>
   extract_cpu_ram reqs = List.map_filter parse reqs"
proof -
  have 1: "parse raw = None \<longleftrightarrow> \<not> has_cores_pattern (raw_CPU raw) \<or> \<not> has_gb_pattern (raw_RAM raw)"
    by (rule parse_None_iff)
  have 2: "\<forall>n. parse raw = Some n \<longrightarrow>
      (\<exists>cs rs. first_match cores_at (raw_CPU raw) cs \<and> first_match gb_at (raw_RAM raw) rs \<and>
         n_CPU n = py_int cs \<and> n_RAM n = py_int rs)"
    using parse_Some_groups by blast
  have 3: "\<exists>n. parse (raw\<lparr>raw_CPU := ''4 Cores'', raw_RAM := ''16GB''\<rparr>) = Some n \<and>
      n_CPU n = 4 \<and> n_RAM n = 16"
    by (simp add: parse_eq match_cores_def match_gb_def is_digit_def is_space_def py_int_def
        digit_val_def)
  have 4: "parse (raw\<lparr>raw_CPU := ''four cores'', raw_RAM := ''16GB''\<rparr>) = None"
    by (simp add: parse_eq match_cores_def match_gb_def is_digit_def is_space_def)
  show ?thesis using 1 2 3 4 extract_cpu_ram_map_filter by blast
qed

theorem extract_cpu_ram_patterns_witness:
  "parse \<lparr>raw_Server_Name = ''db-02'', raw_IP_Address = ''10.0.0.7'', raw_CPU = ''Xeon 8 Cores'',
          raw_RAM = ''32GB DDR4'', raw_Storage = ''1TB HDD'', raw_Database = ''Redis''\<rparr> =
     Some \<lparr>n_Server_Name = ''db-02'', n_IP_Address = ''10.0.0.7'', n_CPU = 8, n_RAM = 32,
           n_Storage = ''1TB HDD'', n_Database = ''Redis''\<rparr> \<and>
   has_cores_pattern ''Xeon 8 Cores'' \<and> has_gb_pattern ''32GB DDR4'' \<and>
   (\<exists>cs rs. first_match cores_at ''Xeon 8 Cores'' cs \<and> first_match gb_at ''32GB DDR4'' rs \<and>
      8 = py_int cs \<and> 32 = py_int rs)"
proof -
  let ?raw = "\<lparr>raw_Server_Name = ''db-02'', raw_IP_Address = ''10.0.0.7'', raw_CPU = ''Xeon 8 Cores'',
          raw_RAM = ''32GB DDR4'', raw_Storage = ''1TB HDD'', raw_Database = ''Redis''\<rparr>"
  let ?n = "\<lparr>n_Server_Name = ''db-02'', n_IP_Address = ''10.0.0.7'', n_CPU = 8, n_RAM = 32,
           n_Storage = ''1TB HDD'', n_Database = ''Redis''\<rparr>"
  have p: "parse ?raw = Some ?n"
    by (simp add: parse_eq match_cores_def match_gb_def is_digit_def is_space_def py_int_def
        digit_val_def)
  from extract_cpu_ram_patterns[of ?raw] p show ?thesis by auto
qed

text \<open>
  C9, as stated, for both parsers. The record built by \<^verbatim>\<open>extract_cpu_ram\<close> of
  \<^verbatim>\<open>EC2CostEstimation-Lambda.py\<close> has no \<^verbatim>\<open>Storage\<close> and no \<^verbatim>\<open>Database\<close> entry: two rows that
  differ in both columns give the same normalized record, so the columns of the row cannot be
  read off it.
\<close>

theorem extract_cpu_ram_ec2_drops_storage:
  "extract_cpu_ram_ec2
     [\<lparr>raw_Server_Name = ''web-01'', raw_IP_Address = ''10.0.0.1'', raw_CPU = ''2 Cores'',
       raw_RAM = ''4GB'', raw_Storage = ''100GB SSD'', raw_Database = ''None''\<rparr>] =
     [\<lparr>n_Server_Name = ''web-01'', n_IP_Address = ''10.0.0.1'', n_CPU = 2, n_RAM = 4\<rparr>] \<and>
   extract_cpu_ram_ec2
     [\<lparr>raw_Server_Name = ''web-01'', raw_IP_Address = ''10.0.0.1'', raw_CPU = ''2 Cores'',
       raw_RAM = ''4GB'', raw_Storage = ''1TB HDD'', raw_Database = ''MySQL''\<rparr>] =
     [\<lparr>n_Server_Name = ''web-01'', n_IP_Address = ''10.0.0.1'', n_CPU = 2, n_RAM = 4\<rparr>] \<and>
   ''100GB SSD'' \<noteq> ''1TB HDD'' \<and> ''None'' \<noteq> ''MySQL''"
  by (simp add: extract_cpu_ram_ec2_def match_cores_def match_gb_def is_digit_def is_space_def
      py_int_def digit_val_def)

text \<open>
  C9, amended. For every row that \<^verbatim>\<open>extract_cpu_ram\<close> of \<^verbatim>\<open>CostEstimationLambda.py\<close> accepts,
  the Server Name, IP Address, Storage and Database entries of the normalized record are those
  of the row. \<^verbatim>\<open>extract_cpu_ram\<close> of \<^verbatim>\<open>EC2CostEstimation-Lambda.py\<close> accepts the same rows and
  builds the same record without the Storage and Database entries: its Server Name and
  IP Address are those of the row.
\<close>

theorem extract_cpu_ram_passes_fields:
  "(parse raw = Some n \<longrightarrow>
      n_Server_Name n = raw_Server_Name raw \<and> n_IP_Address n = raw_IP_Address raw \<and>
      n_Storage n = raw_Storage raw \<and> n_Database n = raw_Database raw) \<and>
   (parse_ec2 raw = Some n' \<longrightarrow>
      n_Server_Name n' = raw_Server_Name raw \<and> n_IP_Address n' = raw_IP_Address raw) \<and>
   parse_ec2 raw = map_option normalized_ec2.truncate (parse raw) \<and>
   (\<forall>n \<in> set (extract_cpu_ram reqs). \<exists>raw \<in> set reqs. parse raw = Some n)"
proof -
  have 1: "parse raw = Some n \<longrightarrow>
      n_Server_Name n = raw_Server_Name raw \<and> n_IP_Address n = raw_IP_Address raw \<and>
      n_Storage n = raw_Storage raw \<and> n_Database n = raw_Database raw"
    by (auto simp: parse_eq split: option.splits)
  have 2: "parse_ec2 raw = Some n' \<longrightarrow>
      n_Server_Name n' = raw_Server_Name raw \<and> n_IP_Address n' = raw_IP_Address raw"
    by (auto simp: parse_ec2_eq split: option.splits)
  have 3: "\<forall>n \<in> set (extract_cpu_ram reqs). \<exists>raw \<in> set reqs. parse raw = Some n"
    by (auto simp: extract_cpu_ram_map_filter map_filter_def)
  show ?thesis using 1 2 3 parse_ec2_truncate by blast
qed

theorem extract_cpu_ram_passes_fields_witness:
  "parse \<lparr>raw_Server_Name = ''web-01'', raw_IP_Address = ''10.0.0.1'', raw_CPU = ''2 Cores'',
          raw_RAM = ''4GB'', raw_Storage = ''100GB SSD'', raw_Database = ''None''\<rparr> =
     Some \<lparr>n_Server_Name = ''web-01'', n_IP_Address = ''10.0.0.1'', n_CPU = 2, n_RAM = 4,
           n_Storage = ''100GB SSD'', n_Database = ''None''\<rparr> \<and>
   parse_ec2 \<lparr>raw_Server_Name = ''web-01'', raw_IP_Address = ''10.0.0.1'', raw_CPU = ''2 Cores'',
          raw_RAM = ''4GB'', raw_Storage = ''100GB SSD'', raw_Database = ''None''\<rparr> =
     Some \<lparr>n_Server_Name = ''web-01'', n_IP_Address = ''10.0.0.1'', n_CPU = 2, n_RAM = 4\<rparr>"
proof -
  let ?raw = "\<lparr>raw_Server_Name = ''web-01'', raw_IP_Address = ''10.0.0.1'', raw_CPU = ''2 Cores'',
          raw_RAM = ''4GB'', raw_Storage = ''100GB SSD'', raw_Database = ''None''\<rparr>"
  let ?n = "\<lparr>n_Server_Name = ''web-01'', n_IP_Address = ''10.0.0.1'', n_CPU = 2, n_RAM = 4,
           n_Storage = ''100GB SSD'', n_Database = ''None''\<rparr>"
  have p: "parse ?raw = Some ?n"
    by (simp add: parse_eq match_cores_def match_gb_def is_digit_def is_space_def py_int_def
        digit_val_def)
  have "parse_ec2 ?raw = map_option normalized_ec2.truncate (parse ?raw)"
    using extract_cpu_ram_passes_fields[of ?raw] by blast
  with p show ?thesis by (simp add: normalized_ec2.truncate_def)
qed

section \<open>The instance matcher: claims\<close>

text \<open>
  C1. The instance selected for a requirement has at least the required vCPUs and memory and
  is an entry of the catalog. The output of \<^verbatim>\<open>find_best_match\<close> has one record for each
  requirement that has a selection, in the order of the requirements; its CPU and RAM entries
  are the vCPUs and memory of the selected instance, so they are at least the CPU and RAM of
  the requirement.
\<close>

theorem find_best_match_sufficient:
  "(select_instance req cat = Some b \<longrightarrow>
      vCPUs b \<ge> n_CPU req \<and> MemoryMiB b \<ge> n_RAM req \<and>
      (\<exists>(instance_name, instance) \<in> set cat. b = as_best instance_name instance)) \<and>
   list_all2
     (\<lambda>m r. m_CPU m \<ge> n_CPU r \<and> m_RAM m \<ge> n_RAM r \<and>
        (\<exists>b. select_instance r cat = Some b \<and> m = matched_record r b))
     (find_best_match reqs cat)
     (filter (\<lambda>r. select_instance r cat \<noteq> None) reqs)"
proof -
  have sel: "vCPUs b \<ge> n_CPU req \<and> MemoryMiB b \<ge> n_RAM req \<and>
      (\<exists>(instance_name, instance) \<in> set cat. b = as_best instance_name instance)"
    if "select_instance req cat = Some b" for req b
    using that unfolding select_instance_def
    by (rule best_match_loop_sufficient) (auto simp: qualifies_def as_best_def)
  have "list_all2
     (\<lambda>m r. m_CPU m \<ge> n_CPU r \<and> m_RAM m \<ge> n_RAM r \<and>
        (\<exists>b. select_instance r cat = Some b \<and> m = matched_record r b))
     (List.map_filter (\<lambda>req. map_option (matched_record req) (select_instance req cat)) reqs)
     (filter (\<lambda>r. select_instance r cat \<noteq> None) reqs)"
  proof (induction reqs)
    case Nil
    then show ?case by (simp add: map_filter_simps)
  next
    case (Cons r reqs)
    show ?case
    proof (cases "select_instance r cat")
      case None
      then show ?thesis using Cons.IH by (simp add: map_filter_simps)
    next
      case (Some b)
      then show ?thesis using Cons.IH sel[OF Some]
        by (simp add: map_filter_simps matched_record_def)
    qed
  qed
  then show ?thesis using sel by (simp add: find_best_match_map_filter)
qed

theorem find_best_match_sufficient_witness:
  "select_instance
     \<lparr>n_Server_Name = ''web-01'', n_IP_Address = ''10.0.0.1'', n_CPU = 2, n_RAM = 4,
      n_Storage = ''100GB SSD'', n_Database = ''None''\<rparr>
     [(''t2.small'', \<lparr>vCPUs = 1, MemoryMiB = 2\<rparr>), (''m5.large'', \<lparr>vCPUs = 2, MemoryMiB = 8\<rparr>),
      (''t3.medium'', \<lparr>vCPUs = 2, MemoryMiB = 4\<rparr>)] =
     Some \<lparr>vCPUs = 2, MemoryMiB = 4, InstanceType = ''t3.medium''\<rparr> \<and>
   (2::int) \<ge> 2 \<and> (4::int) \<ge> 4"
proof -
  let ?req = "\<lparr>n_Server_Name = ''web-01'', n_IP_Address = ''10.0.0.1'', n_CPU = 2, n_RAM = 4,
      n_Storage = ''100GB SSD'', n_Database = ''None''\<rparr>"
  let ?cat = "[(''t2.small'', \<lparr>vCPUs = 1, MemoryMiB = 2\<rparr>), (''m5.large'', \<lparr>vCPUs = 2, MemoryMiB = 8\<rparr>),
      (''t3.medium'', \<lparr>vCPUs = 2, MemoryMiB = 4\<rparr>)]"
  let ?b = "\<lparr>vCPUs = 2, MemoryMiB = 4, InstanceType = ''t3.medium''\<rparr>"
  have s: "select_instance ?req ?cat = Some ?b"
    by (simp add: select_instance_def)
  from find_best_match_sufficient[of ?req ?cat ?b] s
  have "vCPUs ?b \<ge> n_CPU ?req \<and> MemoryMiB ?b \<ge> n_RAM ?req" by blast
  with s show ?thesis by simp
qed

text \<open>
  C3. The matcher goes through the catalog in the order given. With no entry, or no
  qualifying entry, the result is \<^verbatim>\<open>None\<close>, and only then. An entry that does not qualify
  leaves the running best as it is. A qualifying entry becomes the best when there is none
  yet, so the initial best is the first qualifying entry; when there is a best, the entry
  replaces it exactly when its vCPUs are fewer than those of the best or its memory is less
  than that of the best.
\<close>

theorem best_match_rule:
  "select_instance req [] = None \<and>
   (select_instance req cat = None \<longleftrightarrow>
      (\<forall>(instance_name, instance) \<in> set cat. \<not> qualifies req instance)) \<and>
   (\<not> qualifies req instance \<longrightarrow>
      select_instance req (cat @ [(instance_name, instance)]) = select_instance req cat) \<and>
   (qualifies req instance \<and> select_instance req cat = None \<longrightarrow>
      select_instance req (cat @ [(instance_name, instance)]) =
        Some (as_best instance_name instance)) \<and>
   (qualifies req instance \<and> select_instance req cat = Some b \<longrightarrow>
      select_instance req (cat @ [(instance_name, instance)]) =
        (if vCPUs instance < vCPUs b \<or> MemoryMiB instance < MemoryMiB b
         then Some (as_best instance_name instance) else Some b))"
proof -
  have 1: "select_instance req [] = None"
    by (simp add: select_instance_def)
  have 2: "select_instance req cat = None \<longleftrightarrow>
      (\<forall>(instance_name, instance) \<in> set cat. \<not> qualifies req instance)"
    by (simp add: select_instance_def best_match_loop_None_iff)
  have 3: "\<not> qualifies req instance \<longrightarrow>
      select_instance req (cat @ [(instance_name, instance)]) = select_instance req cat"
    by (simp add: select_instance_def best_match_loop_snoc)
  have 4: "qualifies req instance \<and> select_instance req cat = None \<longrightarrow>
      select_instance req (cat @ [(instance_name, instance)]) =
        Some (as_best instance_name instance)"
    by (simp add: select_instance_def best_match_loop_snoc)
  have 5: "qualifies req instance \<and> select_instance req cat = Some b \<longrightarrow>
      select_instance req (cat @ [(instance_name, instance)]) =
        (if vCPUs instance < vCPUs b \<or> MemoryMiB instance < MemoryMiB b
         then Some (as_best instance_name instance) else Some b)"
    by (simp add: select_instance_def best_match_loop_snoc)
  show ?thesis using 1 2 3 4 5 by blast
qed

theorem best_match_rule_witness:
  "qualifies
     \<lparr>n_Server_Name = ''web-01'', n_IP_Address = ''10.0.0.1'', n_CPU = 2, n_RAM = 4,
      n_Storage = ''100GB SSD'', n_Database = ''None''\<rparr> \<lparr>vCPUs = 2, MemoryMiB = 4\<rparr> \<and>
   select_instance
     \<lparr>n_Server_Name = ''web-01'', n_IP_Address = ''10.0.0.1'', n_CPU = 2, n_RAM = 4,
      n_Storage = ''100GB SSD'', n_Database = ''None''\<rparr>
     [(''t2.small'', \<lparr>vCPUs = 1, MemoryMiB = 2\<rparr>), (''m5.large'', \<lparr>vCPUs = 2, MemoryMiB = 8\<rparr>)] =
     Some \<lparr>vCPUs = 2, MemoryMiB = 8, InstanceType = ''m5.large''\<rparr> \<and>
   select_instance
     \<lparr>n_Server_Name = ''web-01'', n_IP_Address = ''10.0.0.1'', n_CPU = 2, n_RAM = 4,
      n_Storage = ''100GB SSD'', n_Database = ''None''\<rparr>
     ([(''t2.small'', \<lparr>vCPUs = 1, MemoryMiB = 2\<rparr>), (''m5.large'', \<lparr>vCPUs = 2, MemoryMiB = 8\<rparr>)] @
      [(''t3.medium'', \<lparr>vCPUs = 2, MemoryMiB = 4\<rparr>)]) =
     Some \<lparr>vCPUs = 2, MemoryMiB = 4, InstanceType = ''t3.medium''\<rparr>"
proof -
  let ?req = "\<lparr>n_Server_Name = ''web-01'', n_IP_Address = ''10.0.0.1'', n_CPU = 2, n_RAM = 4,
      n_Storage = ''100GB SSD'', n_Database = ''None''\<rparr>"
  let ?cat = "[(''t2.small'', \<lparr>vCPUs = 1, MemoryMiB = 2\<rparr>), (''m5.large'', \<lparr>vCPUs = 2, MemoryMiB = 8\<rparr>)]"
  let ?i = "\<lparr>vCPUs = 2, MemoryMiB = 4\<rparr>"
  let ?b = "\<lparr>vCPUs = 2, MemoryMiB = 8, InstanceType = ''m5.large''\<rparr>"
  have q: "qualifies ?req ?i" by (simp add: qualifies_def)
  have s: "select_instance ?req ?cat = Some ?b" by (simp add: select_instance_def)
  from best_match_rule[of ?req ?cat ?i "''t3.medium''" ?b] q s
  have "select_instance ?req (?cat @ [(''t3.medium'', ?i)]) =
        (if vCPUs ?i < vCPUs ?b \<or> MemoryMiB ?i < MemoryMiB ?b
         then Some (as_best ''t3.medium'' ?i) else Some ?b)" by blast
  with q s show ?thesis by (simp add: as_best_def)
qed

section \<open>Facts about the cost computations\<close>

lemma upper_char_digit: "is_digit c \<Longrightarrow> upper_char c = c"
proof -
  have "\<forall>c \<in> set ''0123456789''. upper_char c = c"
    by (simp add: upper_char_def)
  then show "is_digit c \<Longrightarrow> upper_char c = c"
    unfolding is_digit_def by blast
qed

lemma upper_char_space: "is_space c \<Longrightarrow> upper_char c = c"
proof -
  have "\<forall>c \<in> set [CHR 0x09, CHR 0x0A, CHR 0x0B, CHR 0x0C, CHR 0x0D,
     CHR 0x1C, CHR 0x1D, CHR 0x1E, CHR 0x1F, CHR 0x20, CHR 0x85, CHR 0xA0]. upper_char c = c"
    by (simp add: upper_char_def)
  then show "is_space c \<Longrightarrow> upper_char c = c"
    unfolding is_space_def by blast
qed

lemma upper_unit_shape:
  assumes "upper u = ''TB'' \<or> upper u = ''GB''"
  shows "length u = 2" and "\<not> is_digit (hd u)"
proof -
  from assms obtain a b where u: "u = [a, b]"
    by (auto simp: upper_def)
  then show "length u = 2" by simp
  from assms u have a: "upper_char a = CHR ''T'' \<or> upper_char a = CHR ''G''"
    by (auto simp: upper_def)
  have "\<not> is_digit a"
  proof
    assume d: "is_digit a"
    then have "upper_char a = a" by (rule upper_char_digit)
    with a have "a = CHR ''T'' \<or> a = CHR ''G''" by simp
    with d show False by (auto simp: is_digit_def)
  qed
  then show "\<not> is_digit (hd u)" using u by simp
qed

lemma upper_type_shape:
  assumes "upper ty = ''SSD'' \<or> upper ty = ''HDD'' \<or> upper ty = ''NVME''"
  shows "ty \<noteq> []" and "\<forall>c \<in> set ty. \<not> is_space c"
proof -
  show "ty \<noteq> []" using assms by (auto simp: upper_def)
  have letters: "\<forall>c \<in> set ''SDHNVME''. \<not> is_space c"
    by (simp add: is_space_def)
  show "\<forall>c \<in> set ty. \<not> is_space c"
  proof
    fix c assume c: "c \<in> set ty"
    then have "upper_char c \<in> set (upper ty)" by (simp add: upper_def)
    then have m: "upper_char c \<in> set ''SDHNVME''" using assms by auto
    show "\<not> is_space c"
    proof
      assume s: "is_space c"
      then have "upper_char c = c" by (rule upper_char_space)
      with m letters s show False by metis
    qed
  qed
qed

lemma match_size_iff: "match_size t = Some g \<longleftrightarrow> size_at t g"
proof
  assume m: "match_size t = Some g"
  let ?r = "dropWhile is_digit t"
  let ?ds = "takeWhile is_digit t"
  from m have g: "g = (?ds, take 2 ?r)" and ne: "?ds \<noteq> []"
    and c: "upper (take 2 ?r) = ''TB'' \<or> upper (take 2 ?r) = ''GB''"
    by (auto simp: match_size_def Let_def split: if_splits)
  have "t = ?ds @ ?r" by simp
  also have "?r = take 2 ?r @ drop 2 ?r" by simp
  finally have "t = ?ds @ take 2 ?r @ drop 2 ?r" .
  moreover have "list_all is_digit ?ds" by (simp add: list_all_iff) (meson set_takeWhileD)
  ultimately show "size_at t g" using ne c unfolding size_at_def g by blast
next
  assume "size_at t g"
  then obtain ds u post where g: "g = (ds, u)" and ne: "ds \<noteq> []" and d: "list_all is_digit ds"
    and c: "upper u = ''TB'' \<or> upper u = ''GB''" and t: "t = ds @ u @ post"
    unfolding size_at_def by (cases g) auto
  from upper_unit_shape[OF c] have l: "length u = 2" and nd: "\<not> is_digit (hd u)" by auto
  from l have une: "u \<noteq> []" by auto
  then have nd': "\<not> is_digit (hd (u @ post))" using nd by simp
  have 1: "takeWhile is_digit t = ds" and 2: "dropWhile is_digit t = u @ post"
    unfolding t using takeWhile_run[OF d, of "u @ post"] nd' by auto
  have 3: "take 2 (u @ post) = u" using l by simp
  show "match_size t = Some g"
    unfolding match_size_def Let_def 1 2 3 g using ne c by simp
qed

lemma match_type_iff: "match_type t = Some ty \<longleftrightarrow> type_at t ty"
proof
  assume m: "match_type t = Some ty"
  then consider "ty = take 3 t" "upper (take 3 t) = ''SSD'' \<or> upper (take 3 t) = ''HDD''"
    | "ty = take 4 t" "upper (take 4 t) = ''NVME''"
    by (auto simp: match_type_def split: if_splits)
  then show "type_at t ty"
  proof cases
    case 1
    have "t = take 3 t @ drop 3 t" by simp
    with 1 show ?thesis unfolding type_at_def by metis
  next
    case 2
    have "t = take 4 t @ drop 4 t" by simp
    with 2 show ?thesis unfolding type_at_def by metis
  qed
next
  assume "type_at t ty"
  then obtain post where c: "upper ty = ''SSD'' \<or> upper ty = ''HDD'' \<or> upper ty = ''NVME''"
    and t: "t = ty @ post"
    unfolding type_at_def by blast
  have len: "length (upper ty) = length ty" by (simp add: upper_def)
  from c show "match_type t = Some ty"
  proof (elim disjE)
    assume u: "upper ty = ''SSD''"
    with len have "length ty = 3" by simp
    then have "take 3 t = ty" using t by simp
    then show ?thesis using u by (simp add: match_type_def)
  next
    assume u: "upper ty = ''HDD''"
    with len have "length ty = 3" by simp
    then have "take 3 t = ty" using t by simp
    then show ?thesis using u by (simp add: match_type_def)
  next
    assume u: "upper ty = ''NVME''"
    with len have l: "length ty = 4" by simp
    then have 4: "take 4 t = ty" using t by simp
    have "take 3 t = take 3 ty" using t l by simp
    then have "upper (take 3 t) = take 3 (upper ty)" by (simp add: upper_def take_map)
    then have 3: "upper (take 3 t) = ''NVM''" using u by simp
    show ?thesis using u by (simp add: match_type_def 3 4)
  qed
qed

lemma search_size_None_iff: "re_search match_size s = None \<longleftrightarrow> \<not> has_size_pattern s"
  unfolding has_size_pattern_def
  by (rule search_has_pattern) (rule match_size_iff)

lemma search_type_None_iff: "re_search match_type s = None \<longleftrightarrow> \<not> has_type_keyword s"
  unfolding has_type_keyword_def
  by (rule search_has_pattern) (rule match_type_iff)

lemma valid_component_iff: "valid_component c \<longleftrightarrow> has_size_pattern c \<and> has_type_keyword c"
  by (simp add: valid_component_def search_size_None_iff search_type_None_iff)

lemma search_type_at:
  assumes "re_search match_type s = Some ty"
  shows "upper ty = ''SSD'' \<or> upper ty = ''HDD'' \<or> upper ty = ''NVME''"
proof -
  from assms have "first_match type_at s ty"
    by (simp add: search_first_match[of match_type type_at, OF match_type_iff])
  then show ?thesis unfolding first_match_def type_at_def by blast
qed

lemma py_strip_no_space:
  assumes "\<forall>c \<in> set s. \<not> is_space c"
  shows "py_strip s = s"
proof -
  have d: "dropWhile is_space xs = xs" if "\<forall>c \<in> set xs. \<not> is_space c" for xs
    using that by (cases xs) auto
  have "dropWhile is_space (rev (dropWhile is_space s)) = rev s"
    using d[of s] d[of "rev s"] assms by simp
  then show ?thesis by (simp add: py_strip_def)
qed

lemma storage_rate_lookup:
  assumes "re_search match_type s = Some ty"
  shows "map_of storage_cost_per_gb (upper (py_strip ty)) = Some (storage_rate ty)"
proof -
  note c = search_type_at[OF assms]
  have "py_strip ty = ty" using upper_type_shape(2)[OF c] by (rule py_strip_no_space)
  then show ?thesis using c
    by (auto simp: storage_cost_per_gb_def storage_rate_def)
qed

lemma storage_step_eq:
  "storage_step item (acc, pr) =
     (if valid_component (py_strip item)
      then ebind (component_cost (py_strip item)) (\<lambda>cost.
           ebind (py_add acc (PFloat cost)) (\<lambda>acc'. Inr (acc', pr)))
      else Inr (acc, pr @ [''DEBUG: Skipping invalid storage entry: '' @ py_strip item]))"
proof (cases "re_search match_size (py_strip item)")
  case None
  then show ?thesis by (simp add: storage_step_def valid_component_def)
next
  case (Some g)
  obtain ds u where g: "g = (ds, u)" by (cases g)
  show ?thesis
  proof (cases "re_search match_type (py_strip item)")
    case None
    then show ?thesis using Some by (simp add: storage_step_def valid_component_def g)
  next
    case ty: (Some ty)
    show ?thesis
      using Some ty storage_rate_lookup[OF ty]
      by (simp add: storage_step_def valid_component_def g component_cost_def gigabytes_def)
  qed
qed

lemmas float_eval = to_double_def round_pos_def round_half_even_def bit_length.simps Let_def
  round_dyadic_def float_lit_def float_of_int_def int_mul_float_def float_mul_int_def ebind_def

lemma float_of_int_0: "float_of_int 0 = Inr (Fin 0 0)"
  by (simp add: float_of_int_def to_double_def)

lemma float_lit_0: "float_lit 0 k = Fin 0 0"
  by (simp add: float_lit_def to_double_def)

lemma py_add_float_ok:
  assumes "acc = PInt 0 \<or> (\<exists>x. acc = PFloat x)"
  shows "\<exists>y. py_add acc (PFloat c) = Inr (PFloat y)"
  using assms by (auto simp: float_of_int_0 ebind_def)

lemma storage_loop_spec:
  assumes "acc = PInt 0 \<or> (\<exists>x. acc = PFloat x)"
  shows "ebind (storage_loop items (acc, pr)) (\<lambda>st. Inr (fst st)) =
         ebind (collect (map component_cost (filter valid_component (map py_strip items))))
           (\<lambda>costs. py_sum_from acc (map PFloat costs))"
  using assms
proof (induction items arbitrary: acc pr)
  case Nil
  then show ?case by (simp add: ebind_def)
next
  case (Cons item items)
  let ?c = "py_strip item"
  show ?case
  proof (cases "valid_component ?c")
    case False
    then show ?thesis
      using Cons.IH[OF Cons.prems, of "pr @ [''DEBUG: Skipping invalid storage entry: '' @ ?c]"]
      by (simp add: storage_step_eq)
  next
    case True
    show ?thesis
    proof (cases "component_cost ?c")
      case (Inl e)
      then show ?thesis using True by (simp add: storage_step_eq ebind_def)
    next
      case (Inr cost)
      from py_add_float_ok[OF Cons.prems, of cost]
      obtain y where y: "py_add acc (PFloat cost) = Inr (PFloat y)" by blast
      have "ebind (storage_loop items (PFloat y, pr)) (\<lambda>st. Inr (fst st)) =
         ebind (collect (map component_cost (filter valid_component (map py_strip items))))
           (\<lambda>costs. py_sum_from (PFloat y) (map PFloat costs))"
        by (rule Cons.IH) simp
      then show ?thesis using True Inr y
        by (simp add: storage_step_eq ebind_def split: sum.splits)
    qed
  qed
qed

lemma calculate_storage_cost_eq:
  "calculate_storage_cost s =
     ebind (ebind (storage_loop (split_plus s) (PInt 0, [])) (\<lambda>st. Inr (fst st))) py_round2"
  by (simp add: calculate_storage_cost_def calculate_storage_cost_io_def ebind_def
      split: sum.splits)

lemma calculate_storage_cost_valid:
  "calculate_storage_cost s =
     ebind (collect (map component_cost (filter valid_component (map py_strip (split_plus s)))))
       (\<lambda>costs. ebind (py_sum (map PFloat costs)) py_round2)"
  unfolding calculate_storage_cost_eq py_sum_def
  by (subst storage_loop_spec) (simp_all add: ebind_def split: sum.splits)

lemma calculate_storage_cost_spec: "calculate_storage_cost s = storage_cost_spec s"
proof -
  have "filter (\<lambda>c. has_size_pattern c \<and> has_type_keyword c) xs = filter valid_component xs"
    for xs
    by (rule filter_cong) (simp_all add: valid_component_iff)
  then show ?thesis by (simp add: calculate_storage_cost_valid storage_cost_spec_def)
qed

lemma round_half_even_near:
  assumes "0 < b"
  shows "2 * \<bar>a - round_half_even a b * b\<bar> \<le> b"
proof -
  have lo: "0 \<le> a mod b" and hi: "a mod b < b" using assms by simp_all
  have d: "a - (a div b) * b = a mod b" by (simp add: minus_div_mult_eq_mod)
  have u: "a - (a div b + 1) * b = a mod b - b"
    using d by (simp add: algebra_simps)
  show ?thesis
    unfolding round_half_even_def Let_def using lo hi by (auto simp: d u)
qed

lemma float_round2_cents:
  assumes "float_round2 (Fin m e) = Inr r"
  shows "\<exists>n. nearest_cents m e n \<and> r = float_lit n 2"
proof -
  let ?n = "round_half_even (100 * m * 2 ^ nat e) (2 ^ nat (- e))"
  have "nearest_cents m e ?n"
    unfolding nearest_cents_def by (rule round_half_even_near) simp
  moreover have "r = float_lit ?n 2"
    using assms by (auto simp: float_lit_def split: pyfloat.splits)
  ultimately show ?thesis by blast
qed

lemma py_round2_cents:
  assumes "py_round2 (PFloat (Fin m e)) = Inr v"
  shows "\<exists>n. nearest_cents m e n \<and> v = PFloat (float_lit n 2)"
proof -
  from assms obtain r where r: "float_round2 (Fin m e) = Inr r" and v: "v = PFloat r"
    by (auto simp: ebind_def split: sum.splits simp del: float_round2.simps)
  from float_round2_cents[OF r] v show ?thesis by blast
qed

lemma spec_rate_type:
  assumes "upper ty = ''SSD'' \<or> upper ty = ''HDD'' \<or> upper ty = ''NVME''"
  shows "spec_rate ty = Some (storage_rate ty)"
  using assms by (auto simp: spec_rate_def storage_rate_def)

lemma component_cost_first_match:
  assumes "first_match size_at c g" and "first_match type_at c ty"
  shows "\<exists>rate. spec_rate ty = Some rate \<and> component_cost c = int_mul_float (gigabytes g) rate"
proof -
  from assms(1) have 1: "re_search match_size c = Some g"
    by (simp add: search_first_match[of match_size size_at, OF match_size_iff])
  from assms(2) have 2: "re_search match_type c = Some ty"
    by (simp add: search_first_match[of match_type type_at, OF match_type_iff])
  from spec_rate_type[OF search_type_at[OF 2]] 1 2 show ?thesis
    by (simp add: component_cost_def)
qed

lemma all_invalid_zero:
  assumes "\<forall>c \<in> set (map py_strip (split_plus s)). \<not> valid_component c"
  shows "calculate_storage_cost s = Inr (PInt 0)"
proof -
  have "filter valid_component (map py_strip (split_plus s)) = []"
    using assms by (simp add: filter_empty_conv)
  then show ?thesis
    by (simp add: calculate_storage_cost_valid py_sum_def ebind_def)
qed

section \<open>Evaluation of the examples\<close>

lemma rates_eval:
  "float_lit 8 2 = Fin 5764607523034235 (- 56)"
  "float_lit 45 3 = Fin 6485183463413514 (- 57)"
  "float_lit 10 2 = Fin 7205759403792794 (- 56)"
  by (simp_all add: float_eval)

lemma literals_eval:
  "float_lit 8608 2 = Fin 6057341498813317 (- 46)"
  "float_lit 2000 2 = Fin 5629499534213120 (- 48)"
  "float_lit 4000 2 = Fin 5629499534213120 (- 47)"
  by (simp_all add: float_eval)

lemma products_eval:
  "int_mul_float 500 (Fin 5764607523034235 (- 56)) = Inr (Fin 5629499534213120 (- 47))"
  "int_mul_float 1024 (Fin 6485183463413514 (- 57)) = Inr (Fin 6485183463413514 (- 47))"
  "int_mul_float 200 (Fin 7205759403792794 (- 56)) = Inr (Fin 5629499534213120 (- 48))"
  "int_mul_float 100 (Fin 5764607523034235 (- 56)) = Inr (Fin 4503599627370496 (- 49))"
  by (simp_all add: float_eval)

lemma sums_eval:
  "py_add (PInt 0) (PFloat (Fin 5629499534213120 (- 47))) = Inr (PFloat (Fin 5629499534213120 (- 47)))"
  "py_add (PInt 0) (PFloat (Fin 4503599627370496 (- 49))) = Inr (PFloat (Fin 4503599627370496 (- 49)))"
  "py_add (PFloat (Fin 5629499534213120 (- 47))) (PFloat (Fin 6485183463413514 (- 47))) =
     Inr (PFloat (Fin 6057341498813317 (- 46)))"
  by (simp_all add: float_eval)

lemma rounds_eval:
  "py_round2 (PFloat (Fin 6057341498813317 (- 46))) = Inr (PFloat (Fin 6057341498813317 (- 46)))"
  "py_round2 (PFloat (Fin 5629499534213120 (- 47))) = Inr (PFloat (Fin 5629499534213120 (- 47)))"
  "py_round2 (PFloat (Fin 5629499534213120 (- 48))) = Inr (PFloat (Fin 5629499534213120 (- 48)))"
  "py_round2 (PFloat (Fin 4503599627370496 (- 49))) = Inr (PFloat (Fin 4503599627370496 (- 49)))"
  by (simp_all add: float_eval)

lemma match_grammar_iff: "match_grammar t = Some () \<longleftrightarrow> grammar_at t"
proof
  assume m: "match_grammar t = Some ()"
  let ?ds = "takeWhile is_digit t"
  let ?r = "dropWhile is_digit t"
  let ?u = "take 2 ?r"
  let ?ws = "takeWhile is_space (drop 2 ?r)"
  let ?r' = "dropWhile is_space (drop 2 ?r)"
  from m have ne: "?ds \<noteq> []" and c: "upper ?u = ''TB'' \<or> upper ?u = ''GB''"
    and ty: "match_type ?r' \<noteq> None"
    by (auto simp: match_grammar_def Let_def split: if_splits)
  from ty obtain ty where "match_type ?r' = Some ty" by blast
  then have "type_at ?r' ty" by (simp add: match_type_iff)
  then obtain post where k: "upper ty = ''SSD'' \<or> upper ty = ''HDD'' \<or> upper ty = ''NVME''"
    and r': "?r' = ty @ post" unfolding type_at_def by blast
  have "t = ?ds @ ?r" by simp
  also have "?r = ?u @ drop 2 ?r" by simp
  also have "drop 2 ?r = ?ws @ ?r'" by simp
  finally have "t = ?ds @ ?u @ ?ws @ ty @ post" using r' by simp
  moreover have "list_all is_digit ?ds" by (simp add: list_all_iff) (meson set_takeWhileD)
  moreover have "list_all is_space ?ws" by (simp add: list_all_iff) (meson set_takeWhileD)
  ultimately show "grammar_at t" using ne c k unfolding grammar_at_def by blast
next
  assume "grammar_at t"
  then obtain ds u ws ty post where t: "t = ds @ u @ ws @ ty @ post" and ne: "ds \<noteq> []"
    and d: "list_all is_digit ds" and c: "upper u = ''TB'' \<or> upper u = ''GB''"
    and w: "list_all is_space ws"
    and k: "upper ty = ''SSD'' \<or> upper ty = ''HDD'' \<or> upper ty = ''NVME''"
    unfolding grammar_at_def by blast
  from upper_unit_shape[OF c] have l: "length u = 2" and nd: "\<not> is_digit (hd u)" by auto
  from l have "u \<noteq> []" by auto
  then have nd': "\<not> is_digit (hd (u @ ws @ ty @ post))" using nd by simp
  have 1: "takeWhile is_digit t = ds" and 2: "dropWhile is_digit t = u @ ws @ ty @ post"
    unfolding t using takeWhile_run[OF d, of "u @ ws @ ty @ post"] nd' by auto
  have 3: "take 2 (u @ ws @ ty @ post) = u" and 4: "drop 2 (u @ ws @ ty @ post) = ws @ ty @ post"
    using l by simp_all
  from upper_type_shape[OF k] have "ty \<noteq> []" and "\<not> is_space (hd ty)" by auto
  then have "\<not> is_space (hd (ty @ post))" by simp
  then have 5: "dropWhile is_space (ws @ ty @ post) = ty @ post"
    using takeWhile_run(2)[OF w, of "ty @ post"] by simp
  have "type_at (ty @ post) ty" using k unfolding type_at_def by blast
  then have 6: "match_type (ty @ post) = Some ty" by (simp add: match_type_iff)
  show "match_grammar t = Some ()"
    unfolding match_grammar_def Let_def 1 2 3 4 5 6 using ne c by simp
qed

lemma contains_grammar_iff: "contains_grammar s \<longleftrightarrow> re_search match_grammar s \<noteq> None"
proof -
  have "re_search match_grammar s = None \<longleftrightarrow> \<not> (\<exists>pre t g. s = pre @ t \<and> (\<lambda>t (g::unit). grammar_at t) t g)"
    by (rule search_has_pattern) (simp add: match_grammar_iff)
  then show ?thesis unfolding contains_grammar_def by simp
qed

lemma grammar_valid:
  assumes "contains_grammar c"
  shows "has_size_pattern c \<and> has_type_keyword c"
proof -
  from assms obtain pre ds u ws ty post where c: "c = pre @ ds @ u @ ws @ ty @ post"
    and ne: "ds \<noteq> []" and d: "list_all is_digit ds" and un: "upper u = ''TB'' \<or> upper u = ''GB''"
    and k: "upper ty = ''SSD'' \<or> upper ty = ''HDD'' \<or> upper ty = ''NVME''"
    unfolding contains_grammar_def grammar_at_def by blast
  have "size_at (ds @ u @ ws @ ty @ post) (ds, u)"
    using ne d un unfolding size_at_def by auto
  then have 1: "has_size_pattern c" unfolding has_size_pattern_def c by blast
  have "type_at (ty @ post) ty" using k unfolding type_at_def by blast
  moreover have "c = (pre @ ds @ u @ ws) @ ty @ post" using c by simp
  ultimately have 2: "has_type_keyword c" unfolding has_type_keyword_def by blast
  from 1 2 show ?thesis ..
qed

lemma pieces_eval:
  "split_plus ''500GB SSD + 1TB HDD'' = [''500GB SSD '', '' 1TB HDD'']"
  "split_plus ''SSD 500GB'' = [''SSD 500GB'']"
  "split_plus ''fast disk + 2 drives'' = [''fast disk '', '' 2 drives'']"
  "split_plus '''' = ['''']"
  by (simp_all add: split_plus_def)

lemma strips_eval:
  "py_strip ''500GB SSD '' = ''500GB SSD''"
  "py_strip '' 1TB HDD'' = ''1TB HDD''"
  "py_strip ''SSD 500GB'' = ''SSD 500GB''"
  "py_strip ''fast disk '' = ''fast disk''"
  "py_strip '' 2 drives'' = ''2 drives''"
  "py_strip '''' = ''''"
  by (simp_all add: py_strip_def is_space_def)

lemma size_searches_eval:
  "re_search match_size ''500GB SSD'' = Some (''500'', ''GB'')"
  "re_search match_size ''1TB HDD'' = Some (''1'', ''TB'')"
  "re_search match_size ''SSD 500GB'' = Some (''500'', ''GB'')"
  "re_search match_size ''200GB SSD'' = Some (''200'', ''GB'')"
  "re_search match_size ''100GB SSD'' = Some (''100'', ''GB'')"
  "re_search match_size ''fast disk'' = None"
  "re_search match_size ''2 drives'' = None"
  "re_search match_size ''SSD only'' = None"
  "re_search match_size '''' = None"
  by (simp_all add: match_size_def is_digit_def upper_def upper_char_def)

lemma type_searches_eval:
  "re_search match_type ''500GB SSD'' = Some ''SSD''"
  "re_search match_type ''1TB HDD'' = Some ''HDD''"
  "re_search match_type ''SSD 500GB'' = Some ''SSD''"
  "re_search match_type ''100GB SSD'' = Some ''SSD''"
  by (simp_all add: match_type_def upper_def upper_char_def)

lemma grammar_searches_eval:
  "re_search match_grammar ''SSD 500GB'' = None"
  "re_search match_grammar ''500GB SSD'' = Some ()"
  by (simp_all add: match_grammar_def match_type_def is_digit_def is_space_def upper_def
      upper_char_def)

lemma gigabytes_eval:
  "gigabytes (''500'', ''GB'') = 500"
  "gigabytes (''1'', ''TB'') = 1024"
  "gigabytes (''200'', ''GB'') = 200"
  "gigabytes (''100'', ''GB'') = 100"
  by (simp_all add: gigabytes_def upper_def upper_char_def py_int_def digit_val_def)

lemma storage_rate_eval:
  "storage_rate ''SSD'' = Fin 5764607523034235 (- 56)"
  "storage_rate ''HDD'' = Fin 6485183463413514 (- 57)"
  by (simp_all add: storage_rate_def upper_def upper_char_def rates_eval)

lemma component_costs_eval:
  "component_cost ''500GB SSD'' = Inr (Fin 5629499534213120 (- 47))"
  "component_cost ''1TB HDD'' = Inr (Fin 6485183463413514 (- 47))"
  "component_cost ''SSD 500GB'' = Inr (Fin 5629499534213120 (- 47))"
  "component_cost ''100GB SSD'' = Inr (Fin 4503599627370496 (- 49))"
  unfolding component_cost_def size_searches_eval type_searches_eval
  by (simp_all add: gigabytes_eval storage_rate_eval products_eval)

lemma valid_eval:
  "valid_component ''500GB SSD''" "valid_component ''1TB HDD''" "valid_component ''SSD 500GB''"
  "valid_component ''100GB SSD''"
  "\<not> valid_component ''fast disk''" "\<not> valid_component ''2 drives''" "\<not> valid_component ''''"
  unfolding valid_component_def size_searches_eval type_searches_eval
  by simp_all

lemma storage_cost_example:
  "calculate_storage_cost ''500GB SSD + 1TB HDD'' = Inr (PFloat (float_lit 8608 2))"
  by (simp add: calculate_storage_cost_valid pieces_eval strips_eval
      valid_eval component_costs_eval py_sum_def sums_eval rounds_eval literals_eval ebind_def
      del: py_add.simps py_round2.simps)

lemma storage_cost_empty: "calculate_storage_cost '''' = Inr (PInt 0)"
  by (rule all_invalid_zero) (simp add: pieces_eval strips_eval valid_eval)

lemma storage_cost_reversed:
  "calculate_storage_cost_io ''SSD 500GB'' = Inr (PFloat (float_lit 4000 2), [])"
  by (simp add: calculate_storage_cost_io_def pieces_eval storage_step_eq strips_eval
      valid_eval component_costs_eval sums_eval rounds_eval literals_eval ebind_def
      del: py_add.simps py_round2.simps)

lemma more_floats_eval:
  "float_lit 15 2 = Fin 5404319552844595 (- 55)"
  "float_lit 40 2 = Fin 7205759403792794 (- 54)"
  "float_lit 45 2 = Fin 8106479329266893 (- 54)"
  "float_lit 10240 2 = Fin 7205759403792794 (- 46)"
  "int_mul_float 9 (Fin 6485183463413514 (- 57)) = Inr (Fin 7295831396340203 (- 54))"
  "int_mul_float 1024 (Fin 7205759403792794 (- 56)) = Inr (Fin 7205759403792794 (- 46))"
  "int_mul_float 3 (Fin 5404319552844595 (- 55)) = Inr (Fin 8106479329266892 (- 54))"
  by (simp_all add: float_eval)

lemma more_sums_eval:
  "py_add (PInt 0) (PFloat (Fin 7295831396340203 (- 54))) = Inr (PFloat (Fin 7295831396340203 (- 54)))"
  "py_add (PInt 0) (PFloat (Fin 7205759403792794 (- 46))) = Inr (PFloat (Fin 7205759403792794 (- 46)))"
  by (simp_all add: float_eval)

lemma more_rounds_eval:
  "py_round2 (PFloat (Fin 7295831396340203 (- 54))) = Inr (PFloat (Fin 7205759403792794 (- 54)))"
  "py_round2 (PFloat (Fin 7205759403792794 (- 46))) = Inr (PFloat (Fin 7205759403792794 (- 46)))"
  "py_round2 (PFloat (Fin 8106479329266892 (- 54))) = Inr (PFloat (Fin 8106479329266893 (- 54)))"
  by (simp_all add: float_eval)

lemma more_pieces_eval:
  "map py_strip (split_plus ''SSD 500GB + HDD 1TB'') = [''SSD 500GB'', ''HDD 1TB'']"
  "map py_strip (split_plus ''9GB HDD'') = [''9GB HDD'']"
  "map py_strip (split_plus ''1TB NVMe'') = [''1TB NVMe'']"
  "map py_strip (split_plus ''fast disk + 2 drives'') = [''fast disk'', ''2 drives'']"
  by (simp_all add: split_plus_def py_strip_def is_space_def)

lemma more_size_searches_eval:
  "re_search match_size ''HDD 1TB'' = Some (''1'', ''TB'')"
  "re_search match_size ''9GB HDD'' = Some (''9'', ''GB'')"
  "re_search match_size ''1TB NVMe'' = Some (''1'', ''TB'')"
  "re_search match_size ''3GB SSD'' = Some (''3'', ''GB'')"
  by (simp_all add: match_size_def is_digit_def upper_def upper_char_def)

lemma more_type_searches_eval:
  "re_search match_type ''HDD 1TB'' = Some ''HDD''"
  "re_search match_type ''9GB HDD'' = Some ''HDD''"
  "re_search match_type ''1TB NVMe'' = Some ''NVMe''"
  by (simp_all add: match_type_def upper_def upper_char_def)

lemma more_grammar_searches_eval: "re_search match_grammar ''HDD 1TB'' = None"
  by (simp add: match_grammar_def match_type_def is_digit_def is_space_def upper_def
      upper_char_def)

lemma more_gigabytes_eval:
  "gigabytes (''9'', ''GB'') = 9"
  "gigabytes (''3'', ''GB'') = 3"
  by (simp_all add: gigabytes_def upper_def upper_char_def py_int_def digit_val_def)

lemma more_storage_rate_eval: "storage_rate ''NVMe'' = Fin 7205759403792794 (- 56)"
  by (simp add: storage_rate_def upper_def upper_char_def rates_eval)

lemma more_component_costs_eval:
  "component_cost ''HDD 1TB'' = Inr (Fin 6485183463413514 (- 47))"
  "component_cost ''9GB HDD'' = Inr (Fin 7295831396340203 (- 54))"
  "component_cost ''1TB NVMe'' = Inr (Fin 7205759403792794 (- 46))"
  unfolding component_cost_def more_size_searches_eval more_type_searches_eval
  by (simp_all add: gigabytes_eval more_gigabytes_eval storage_rate_eval more_storage_rate_eval
      products_eval more_floats_eval)

lemma more_valid_eval:
  "valid_component ''HDD 1TB''" "valid_component ''9GB HDD''" "valid_component ''1TB NVMe''"
  unfolding valid_component_def more_size_searches_eval more_type_searches_eval
  by simp_all

lemma storage_cost_swapped:
  "calculate_storage_cost ''SSD 500GB + HDD 1TB'' = Inr (PFloat (float_lit 8608 2))"
  unfolding calculate_storage_cost_valid more_pieces_eval
  by (simp add: valid_eval more_valid_eval component_costs_eval more_component_costs_eval
      py_sum_def sums_eval rounds_eval literals_eval ebind_def
      del: py_add.simps py_round2.simps)

lemma storage_cost_rounded:
  "calculate_storage_cost ''9GB HDD'' = Inr (PFloat (float_lit 40 2))"
  unfolding calculate_storage_cost_valid more_pieces_eval
  by (simp add: more_valid_eval more_component_costs_eval py_sum_def more_sums_eval
      more_rounds_eval more_floats_eval ebind_def del: py_add.simps py_round2.simps)

lemma storage_cost_nvme:
  "calculate_storage_cost ''1TB NVMe'' = Inr (PFloat (float_lit 10240 2))"
  unfolding calculate_storage_cost_valid more_pieces_eval
  by (simp add: more_valid_eval more_component_costs_eval py_sum_def more_sums_eval
      more_rounds_eval more_floats_eval ebind_def del: py_add.simps py_round2.simps)

lemma no_component_zero:
  assumes "\<forall>c \<in> set (map py_strip (split_plus s)). \<not> (has_size_pattern c \<and> has_type_keyword c)"
  shows "calculate_storage_cost s = Inr (PInt 0)"
  using assms by (intro all_invalid_zero) (simp add: valid_component_iff)

section \<open>The cost aggregator: claims\<close>

text \<open>
  C5, as stated. A valid component of the specification is one that follows its grammar: an
  integer, a unit, optional white space, a type. Neither component of
  \<^verbatim>\<open>SSD 500GB + HDD 1TB\<close> contains such a text, so every component is invalid, and yet the
  cost is the float \<^verbatim>\<open>86.08\<close> and not zero.
\<close>

theorem storage_cost_outside_grammar:
  "map py_strip (split_plus ''SSD 500GB + HDD 1TB'') = [''SSD 500GB'', ''HDD 1TB''] \<and>
   \<not> contains_grammar ''SSD 500GB'' \<and> \<not> contains_grammar ''HDD 1TB'' \<and>
   calculate_storage_cost ''SSD 500GB + HDD 1TB'' = Inr (PFloat (float_lit 8608 2)) \<and>
   float_lit 8608 2 \<noteq> Fin 0 0"
proof -
  have 1: "\<not> contains_grammar ''SSD 500GB''"
    unfolding contains_grammar_iff grammar_searches_eval by simp
  have 2: "\<not> contains_grammar ''HDD 1TB''"
    unfolding contains_grammar_iff more_grammar_searches_eval by simp
  have 3: "float_lit 8608 2 \<noteq> Fin 0 0"
    unfolding literals_eval by simp
  show ?thesis by (intro conjI more_pieces_eval(1) 1 2 storage_cost_swapped 3)
qed

text \<open>
  C5, amended. \<^verbatim>\<open>calculate_storage_cost\<close> splits the descriptor at the plus signs and keeps
  every component that contains a size and contains a type keyword, each anywhere in the
  component and in either order. For such a component the first size is turned into
  gigabytes with 1 TB = 1024 GB and multiplied by the rate of the first type keyword (SSD
  0.08, HDD 0.045, NVMe 0.10); the costs are summed from left to right and the sum is rounded
  to two places: the result is the float of a decimal \<open>n / 100\<close> where \<open>n\<close> is an integer
  nearest to one hundred times the sum. All of it is Python's arithmetic. The descriptor
  \<^verbatim>\<open>500GB SSD + 1TB HDD\<close> costs \<^verbatim>\<open>86.08\<close>; \<^verbatim>\<open>9GB HDD\<close> costs \<^verbatim>\<open>0.4\<close>, which is not the
  product before rounding; \<^verbatim>\<open>1TB NVMe\<close> costs \<^verbatim>\<open>102.4\<close>. The empty descriptor, and any
  descriptor with no component that has both a size and a type keyword, costs the integer 0,
  which equals \<^verbatim>\<open>0.00\<close>.
\<close>

theorem calculate_storage_cost_spec_examples:
  "calculate_storage_cost s = storage_cost_spec s \<and>
   (first_match size_at c g \<and> first_match type_at c ty \<longrightarrow>
      (\<exists>rate. spec_rate ty = Some rate \<and>
         component_cost c = int_mul_float (gigabytes g) rate)) \<and>
   (upper u = ''TB'' \<longrightarrow> gigabytes (ds, u) = py_int ds * 1024) \<and>
   (upper u = ''GB'' \<longrightarrow> gigabytes (ds, u) = py_int ds) \<and>
   (py_round2 (PFloat (Fin m e)) = Inr v \<longrightarrow>
      (\<exists>n. nearest_cents m e n \<and> v = PFloat (float_lit n 2))) \<and>
   calculate_storage_cost ''500GB SSD + 1TB HDD'' = Inr (PFloat (float_lit 8608 2)) \<and>
   calculate_storage_cost ''9GB HDD'' = Inr (PFloat (float_lit 40 2)) \<and>
   component_cost ''9GB HDD'' \<noteq> Inr (float_lit 40 2) \<and>
   calculate_storage_cost ''1TB NVMe'' = Inr (PFloat (float_lit 10240 2)) \<and>
   calculate_storage_cost '''' = Inr (PInt 0) \<and>
   ((\<forall>c \<in> set (map py_strip (split_plus s)).
       \<not> (has_size_pattern c \<and> has_type_keyword c)) \<longrightarrow>
      calculate_storage_cost s = Inr (PInt 0))"
proof -
  have 1: "first_match size_at c g \<and> first_match type_at c ty \<longrightarrow>
      (\<exists>rate. spec_rate ty = Some rate \<and>
         component_cost c = int_mul_float (gigabytes g) rate)"
    using component_cost_first_match by blast
  have 2: "upper u = ''TB'' \<longrightarrow> gigabytes (ds, u) = py_int ds * 1024"
    by (simp add: gigabytes_def)
  have 3: "upper u = ''GB'' \<longrightarrow> gigabytes (ds, u) = py_int ds"
    by (simp add: gigabytes_def)
  have 4: "py_round2 (PFloat (Fin m e)) = Inr v \<longrightarrow>
      (\<exists>n. nearest_cents m e n \<and> v = PFloat (float_lit n 2))"
    using py_round2_cents by blast
  have 5: "component_cost ''9GB HDD'' \<noteq> Inr (float_lit 40 2)"
    unfolding more_component_costs_eval more_floats_eval by simp
  have 6: "(\<forall>c \<in> set (map py_strip (split_plus s)).
       \<not> (has_size_pattern c \<and> has_type_keyword c)) \<longrightarrow>
      calculate_storage_cost s = Inr (PInt 0)"
    using no_component_zero by blast
  show ?thesis
    by (intro conjI calculate_storage_cost_spec 1 2 3 4 storage_cost_example
        storage_cost_rounded 5 storage_cost_nvme storage_cost_empty 6)
qed

theorem calculate_storage_cost_spec_examples_witness:
  "map py_strip (split_plus ''fast disk + 2 drives'') = [''fast disk'', ''2 drives''] \<and>
   \<not> has_size_pattern ''fast disk'' \<and> \<not> has_size_pattern ''2 drives'' \<and>
   calculate_storage_cost ''fast disk + 2 drives'' = Inr (PInt 0) \<and>
   first_match size_at ''9GB HDD'' (''9'', ''GB'') \<and> first_match type_at ''9GB HDD'' ''HDD'' \<and>
   spec_rate ''HDD'' = Some (float_lit 45 3) \<and>
   component_cost ''9GB HDD'' = int_mul_float (gigabytes (''9'', ''GB'')) (float_lit 45 3)"
proof -
  note p = more_pieces_eval(4)
  have a: "\<not> has_size_pattern ''fast disk''"
    unfolding search_size_None_iff[symmetric] by (rule size_searches_eval)
  have b: "\<not> has_size_pattern ''2 drives''"
    unfolding search_size_None_iff[symmetric] by (rule size_searches_eval)
  have h: "\<forall>c \<in> set (map py_strip (split_plus ''fast disk + 2 drives'')).
       \<not> (has_size_pattern c \<and> has_type_keyword c)"
    unfolding p using a b by simp
  note t = calculate_storage_cost_spec_examples[of "''fast disk + 2 drives''" "''9GB HDD''"
      "(''9'', ''GB'')" "''HDD''"]
  have z: "calculate_storage_cost ''fast disk + 2 drives'' = Inr (PInt 0)"
    by (rule t[THEN conjunct2, THEN conjunct2, THEN conjunct2, THEN conjunct2, THEN conjunct2,
          THEN conjunct2, THEN conjunct2, THEN conjunct2, THEN conjunct2, THEN conjunct2,
          THEN mp]) (rule h)
  have f: "first_match size_at ''9GB HDD'' (''9'', ''GB'')"
    unfolding search_first_match[of match_size size_at, OF match_size_iff, symmetric]
    by (rule more_size_searches_eval)
  have k: "first_match type_at ''9GB HDD'' ''HDD''"
    unfolding search_first_match[of match_type type_at, OF match_type_iff, symmetric]
    by (rule more_type_searches_eval)
  have r: "spec_rate ''HDD'' = Some (float_lit 45 3)"
    by (simp add: spec_rate_def upper_def upper_char_def)
  from t[THEN conjunct2, THEN conjunct1, THEN mp, OF conjI[OF f k]]
  obtain rate where "spec_rate ''HDD'' = Some rate"
    and "component_cost ''9GB HDD'' = int_mul_float (gigabytes (''9'', ''GB'')) rate"
    by blast
  with r have c: "component_cost ''9GB HDD'' =
      int_mul_float (gigabytes (''9'', ''GB'')) (float_lit 45 3)" by simp
  show ?thesis by (intro conjI p a b z f k r c)
qed

text \<open>
  C7, as stated. The component \<^verbatim>\<open>SSD 500GB\<close> has its type before its size, so no part of it
  is an integer, a unit, optional white space and a type in that order; yet it is not
  skipped: nothing is printed and its cost, the float \<^verbatim>\<open>40.0\<close>, is the result.
\<close>

theorem storage_component_out_of_grammar:
  "\<not> contains_grammar ''SSD 500GB'' \<and>
   calculate_storage_cost_io ''SSD 500GB'' = Inr (PFloat (float_lit 4000 2), [])"
  unfolding contains_grammar_iff grammar_searches_eval storage_cost_reversed by simp

text \<open>
  C7, amended. A component, with the white space around it removed, contributes its cost
  exactly when it contains a size (digits followed by \<^verbatim>\<open>GB\<close> or \<^verbatim>\<open>TB\<close>, in any case) and
  contains a type keyword (\<^verbatim>\<open>SSD\<close>, \<^verbatim>\<open>HDD\<close> or \<^verbatim>\<open>NVMe\<close>, in any case), each anywhere in the
  component and in either order. A component that contains the grammar of the specification
  does. Any other component is skipped: one diagnostic line is printed, the total is left as
  it is, and the loop goes on.
\<close>

theorem storage_component_contributes:
  "storage_step item (total_cost, printed) =
     (if has_size_pattern (py_strip item) \<and> has_type_keyword (py_strip item)
      then ebind (component_cost (py_strip item)) (\<lambda>cost.
           ebind (py_add total_cost (PFloat cost)) (\<lambda>total_cost'. Inr (total_cost', printed)))
      else Inr (total_cost,
                printed @ [''DEBUG: Skipping invalid storage entry: '' @ py_strip item])) \<and>
   (contains_grammar (py_strip item) \<longrightarrow>
      has_size_pattern (py_strip item) \<and> has_type_keyword (py_strip item))"
  using storage_step_eq[of item total_cost printed] grammar_valid[of "py_strip item"]
  by (simp add: valid_component_iff)

theorem storage_component_contributes_witness:
  "contains_grammar (py_strip ''500GB SSD '') \<and>
   has_size_pattern (py_strip ''500GB SSD '') \<and> has_type_keyword (py_strip ''500GB SSD '') \<and>
   storage_step ''500GB SSD '' (PInt 0, []) = Inr (PFloat (float_lit 4000 2), []) \<and>
   \<not> has_size_pattern (py_strip ''fast disk '') \<and>
   storage_step ''fast disk '' (PInt 0, []) =
     Inr (PInt 0, [''DEBUG: Skipping invalid storage entry: fast disk''])"
proof -
  have g: "contains_grammar (py_strip ''500GB SSD '')"
    unfolding strips_eval contains_grammar_iff grammar_searches_eval by simp
  have n: "\<not> has_size_pattern (py_strip ''fast disk '')"
    unfolding strips_eval search_size_None_iff[symmetric] by (rule size_searches_eval)
  from storage_component_contributes[of "''500GB SSD ''" "PInt 0" "[]"] g
  have 1: "has_size_pattern (py_strip ''500GB SSD '') \<and> has_type_keyword (py_strip ''500GB SSD '')"
    and 2: "storage_step ''500GB SSD '' (PInt 0, []) =
      ebind (component_cost (py_strip ''500GB SSD '')) (\<lambda>cost.
           ebind (py_add (PInt 0) (PFloat cost)) (\<lambda>total_cost'. Inr (total_cost', [])))"
    by auto
  from storage_component_contributes[of "''fast disk ''" "PInt 0" "[]"] n
  have 3: "storage_step ''fast disk '' (PInt 0, []) =
     Inr (PInt 0, [] @ [''DEBUG: Skipping invalid storage entry: '' @ py_strip ''fast disk ''])"
    by auto
  have 4: "storage_step ''500GB SSD '' (PInt 0, []) = Inr (PFloat (float_lit 4000 2), [])"
    unfolding 2 strips_eval component_costs_eval
    by (simp add: ebind_def sums_eval literals_eval del: py_add.simps)
  have 5: "storage_step ''fast disk '' (PInt 0, []) =
     Inr (PInt 0, [''DEBUG: Skipping invalid storage entry: fast disk''])"
    unfolding 3 strips_eval by simp
  from g 1 4 n 5 show ?thesis by blast
qed

lemma database_rate_lookup:
  assumes "(database, rate) \<in> {(''MySQL'', float_lit 10 2), (''PostgreSQL'', float_lit 10 2),
      (''Microsoft SQL Server'', float_lit 20 2), (''Oracle Database'', float_lit 30 2),
      (''Redis'', float_lit 15 2)}"
  shows "map_of database_cost_per_gb database = Some rate" and "database \<noteq> ''None''"
  using assms by (auto simp: database_cost_per_gb_def)

lemma database_unrecognized:
  "map_of database_cost_per_gb database = None \<longleftrightarrow>
     database \<notin> {''MySQL'', ''PostgreSQL'', ''Microsoft SQL Server'', ''Oracle Database'', ''Redis''}"
  by (simp add: map_of_eq_None_iff database_cost_per_gb_def)

lemma database_cost_zero:
  assumes "database = ''None'' \<or>
     database \<notin> {''MySQL'', ''PostgreSQL'', ''Microsoft SQL Server'', ''Oracle Database'', ''Redis''}"
  shows "calculate_database_cost database storage_str = Inr (PFloat (Fin 0 0))"
  using assms unfolding database_unrecognized[symmetric]
  by (auto simp: calculate_database_cost_def float_lit_0)

lemma database_cost_no_size:
  assumes "re_search match_size storage_str = None"
  shows "calculate_database_cost database storage_str = Inr (PFloat (Fin 0 0))"
  using assms by (simp add: calculate_database_cost_def float_lit_0)

lemma database_cost_size:
  assumes "map_of database_cost_per_gb database = Some rate" and "database \<noteq> ''None''"
    and "re_search match_size storage_str = Some g"
  shows "calculate_database_cost database storage_str =
     ebind (int_mul_float (gigabytes g) rate) (\<lambda>total_cost. py_round2 (PFloat total_cost))"
  using assms by (cases g) (simp add: calculate_database_cost_def gigabytes_def del: py_round2.simps)

lemma database_cost_example:
  "calculate_database_cost ''MySQL'' ''200GB SSD'' = Inr (PFloat (float_lit 2000 2))"
proof -
  have "(''MySQL'', float_lit 10 2) \<in> {(''MySQL'', float_lit 10 2), (''PostgreSQL'', float_lit 10 2),
      (''Microsoft SQL Server'', float_lit 20 2), (''Oracle Database'', float_lit 30 2),
      (''Redis'', float_lit 15 2)}" by (rule insertI1)
  note r = database_rate_lookup[OF this]
  show ?thesis
    unfolding database_cost_size[OF r size_searches_eval(4)] gigabytes_eval rates_eval
      products_eval
    by (simp add: ebind_def rounds_eval literals_eval del: py_round2.simps)
qed

lemma database_cost_rounded:
  "calculate_database_cost ''Redis'' ''3GB SSD'' = Inr (PFloat (float_lit 45 2))"
proof -
  have "(''Redis'', float_lit 15 2) \<in> {(''MySQL'', float_lit 10 2), (''PostgreSQL'', float_lit 10 2),
      (''Microsoft SQL Server'', float_lit 20 2), (''Oracle Database'', float_lit 30 2),
      (''Redis'', float_lit 15 2)}" by simp
  note r = database_rate_lookup[OF this]
  show ?thesis
    unfolding database_cost_size[OF r more_size_searches_eval(4)] more_gigabytes_eval
      more_floats_eval
    by (simp add: ebind_def more_rounds_eval del: py_round2.simps)
qed

lemma database_cost_cents:
  assumes "map_of database_cost_per_gb database = Some rate" and "database \<noteq> ''None''"
    and "re_search match_size storage_str = Some g"
    and "int_mul_float (gigabytes g) rate = Inr (Fin m e)"
    and "calculate_database_cost database storage_str = Inr v"
  shows "\<exists>n. nearest_cents m e n \<and> v = PFloat (float_lit n 2)"
proof -
  have "calculate_database_cost database storage_str = py_round2 (PFloat (Fin m e))"
    unfolding database_cost_size[OF assms(1,2,3)] assms(4) by (simp add: ebind_def)
  with assms(5) have "py_round2 (PFloat (Fin m e)) = Inr v" by simp
  then show ?thesis by (rule py_round2_cents)
qed

text \<open>
  C6. The database cost is the float \<^verbatim>\<open>0.0\<close> when the kind is \<^verbatim>\<open>None\<close> or is not one of
  MySQL, PostgreSQL, Microsoft SQL Server, Oracle Database and Redis. For one of these, with
  its rate 0.10, 0.10, 0.20, 0.30 or 0.15, and a storage descriptor in which a size occurs,
  the cost is the first size found in the whole descriptor, in gigabytes, times the rate,
  rounded to two places, in Python's arithmetic: when the product is finite, the result is
  the float of a decimal \<open>n / 100\<close> where \<open>n\<close> is an integer nearest to one hundred times the
  product. MySQL with \<^verbatim>\<open>200GB SSD\<close> costs the float \<^verbatim>\<open>20.0\<close>; Redis with \<^verbatim>\<open>3GB SSD\<close> costs
  the float \<^verbatim>\<open>0.45\<close>, which is not the product before rounding.
\<close>

theorem calculate_database_cost_rule:
  "((database = ''None'' \<or>
     database \<notin> {''MySQL'', ''PostgreSQL'', ''Microsoft SQL Server'', ''Oracle Database'', ''Redis''})
     \<longrightarrow> calculate_database_cost database storage_str = Inr (PFloat (Fin 0 0))) \<and>
   ((database, rate) \<in> {(''MySQL'', float_lit 10 2), (''PostgreSQL'', float_lit 10 2),
      (''Microsoft SQL Server'', float_lit 20 2), (''Oracle Database'', float_lit 30 2),
      (''Redis'', float_lit 15 2)} \<and> first_match size_at storage_str g
     \<longrightarrow> calculate_database_cost database storage_str =
          ebind (int_mul_float (gigabytes g) rate) (\<lambda>total_cost. py_round2 (PFloat total_cost))) \<and>
   calculate_database_cost ''MySQL'' ''200GB SSD'' = Inr (PFloat (float_lit 2000 2)) \<and>
   ((database, rate) \<in> {(''MySQL'', float_lit 10 2), (''PostgreSQL'', float_lit 10 2),
      (''Microsoft SQL Server'', float_lit 20 2), (''Oracle Database'', float_lit 30 2),
      (''Redis'', float_lit 15 2)} \<and> first_match size_at storage_str g \<and>
    int_mul_float (gigabytes g) rate = Inr (Fin m e) \<and>
    calculate_database_cost database storage_str = Inr v
     \<longrightarrow> (\<exists>n. nearest_cents m e n \<and> v = PFloat (float_lit n 2))) \<and>
   calculate_database_cost ''Redis'' ''3GB SSD'' = Inr (PFloat (float_lit 45 2)) \<and>
   int_mul_float (gigabytes (''3'', ''GB'')) (float_lit 15 2) \<noteq> Inr (float_lit 45 2)"
proof -
  have 2: "calculate_database_cost database storage_str =
          ebind (int_mul_float (gigabytes g) rate) (\<lambda>total_cost. py_round2 (PFloat total_cost))"
    if r: "(database, rate) \<in> {(''MySQL'', float_lit 10 2), (''PostgreSQL'', float_lit 10 2),
      (''Microsoft SQL Server'', float_lit 20 2), (''Oracle Database'', float_lit 30 2),
      (''Redis'', float_lit 15 2)}" and f: "first_match size_at storage_str g"
  proof -
    from f have "re_search match_size storage_str = Some g"
      by (simp add: search_first_match[of match_size size_at, OF match_size_iff])
    with database_rate_lookup[OF r] show ?thesis by (rule database_cost_size)
  qed
  have 1: "(database = ''None'' \<or>
     database \<notin> {''MySQL'', ''PostgreSQL'', ''Microsoft SQL Server'', ''Oracle Database'', ''Redis''})
     \<longrightarrow> calculate_database_cost database storage_str = Inr (PFloat (Fin 0 0))"
    by (rule impI) (rule database_cost_zero)
  have two: "(database, rate) \<in> {(''MySQL'', float_lit 10 2), (''PostgreSQL'', float_lit 10 2),
      (''Microsoft SQL Server'', float_lit 20 2), (''Oracle Database'', float_lit 30 2),
      (''Redis'', float_lit 15 2)} \<and> first_match size_at storage_str g
     \<longrightarrow> calculate_database_cost database storage_str =
          ebind (int_mul_float (gigabytes g) rate) (\<lambda>total_cost. py_round2 (PFloat total_cost))"
    by (rule impI, elim conjE) (rule 2)
  have three: "(database, rate) \<in> {(''MySQL'', float_lit 10 2), (''PostgreSQL'', float_lit 10 2),
      (''Microsoft SQL Server'', float_lit 20 2), (''Oracle Database'', float_lit 30 2),
      (''Redis'', float_lit 15 2)} \<and> first_match size_at storage_str g \<and>
    int_mul_float (gigabytes g) rate = Inr (Fin m e) \<and>
    calculate_database_cost database storage_str = Inr v
     \<longrightarrow> (\<exists>n. nearest_cents m e n \<and> v = PFloat (float_lit n 2))"
  proof (rule impI, elim conjE)
    assume r: "(database, rate) \<in> {(''MySQL'', float_lit 10 2), (''PostgreSQL'', float_lit 10 2),
      (''Microsoft SQL Server'', float_lit 20 2), (''Oracle Database'', float_lit 30 2),
      (''Redis'', float_lit 15 2)}" and f: "first_match size_at storage_str g"
      and x: "int_mul_float (gigabytes g) rate = Inr (Fin m e)"
      and c: "calculate_database_cost database storage_str = Inr v"
    from f have s: "re_search match_size storage_str = Some g"
      by (simp add: search_first_match[of match_size size_at, OF match_size_iff])
    from database_rate_lookup[OF r] s x c
    show "\<exists>n. nearest_cents m e n \<and> v = PFloat (float_lit n 2)"
      by (rule database_cost_cents)
  qed
  have four: "int_mul_float (gigabytes (''3'', ''GB'')) (float_lit 15 2) \<noteq> Inr (float_lit 45 2)"
    unfolding more_gigabytes_eval more_floats_eval by simp
  show ?thesis
    by (intro conjI 1 two database_cost_example three database_cost_rounded four)

qed

theorem calculate_database_cost_rule_witness:
  "first_match size_at ''200GB SSD'' (''200'', ''GB'') \<and>
   calculate_database_cost ''MySQL'' ''200GB SSD'' =
     ebind (int_mul_float (gigabytes (''200'', ''GB'')) (float_lit 10 2))
       (\<lambda>total_cost. py_round2 (PFloat total_cost)) \<and>
   calculate_database_cost ''None'' ''200GB SSD'' = Inr (PFloat (Fin 0 0)) \<and>
   first_match size_at ''3GB SSD'' (''3'', ''GB'') \<and>
   int_mul_float (gigabytes (''3'', ''GB'')) (float_lit 15 2) =
     Inr (Fin 8106479329266892 (- 54)) \<and>
   calculate_database_cost ''Redis'' ''3GB SSD'' = Inr (PFloat (float_lit 45 2)) \<and>
   (\<exists>n. nearest_cents 8106479329266892 (- 54) n \<and>
      PFloat (float_lit 45 2) = PFloat (float_lit n 2)) \<and>
   nearest_cents 8106479329266892 (- 54) 45"
proof -
  have f: "first_match size_at ''200GB SSD'' (''200'', ''GB'')"
    unfolding search_first_match[of match_size size_at, OF match_size_iff, symmetric]
    by (rule size_searches_eval)
  have m: "(''MySQL'', float_lit 10 2) \<in> {(''MySQL'', float_lit 10 2), (''PostgreSQL'', float_lit 10 2),
      (''Microsoft SQL Server'', float_lit 20 2), (''Oracle Database'', float_lit 30 2),
      (''Redis'', float_lit 15 2)}" by (rule insertI1)
  note t = calculate_database_cost_rule[of "''MySQL''" "''200GB SSD''" "float_lit 10 2" "(''200'', ''GB'')"]
  have 1: "calculate_database_cost ''MySQL'' ''200GB SSD'' =
     ebind (int_mul_float (gigabytes (''200'', ''GB'')) (float_lit 10 2))
       (\<lambda>total_cost. py_round2 (PFloat total_cost))"
    by (rule t[THEN conjunct2, THEN conjunct1, THEN mp]) (intro conjI m f)
  note t' = calculate_database_cost_rule[of "''None''" "''200GB SSD''" "float_lit 10 2" "(''200'', ''GB'')"]
  have 2: "calculate_database_cost ''None'' ''200GB SSD'' = Inr (PFloat (Fin 0 0))"
    by (rule t'[THEN conjunct1, THEN mp]) (rule disjI1, rule refl)
  have f3: "first_match size_at ''3GB SSD'' (''3'', ''GB'')"
    unfolding search_first_match[of match_size size_at, OF match_size_iff, symmetric]
    by (rule more_size_searches_eval)
  have r: "(''Redis'', float_lit 15 2) \<in> {(''MySQL'', float_lit 10 2), (''PostgreSQL'', float_lit 10 2),
      (''Microsoft SQL Server'', float_lit 20 2), (''Oracle Database'', float_lit 30 2),
      (''Redis'', float_lit 15 2)}" by simp
  have x: "int_mul_float (gigabytes (''3'', ''GB'')) (float_lit 15 2) =
     Inr (Fin 8106479329266892 (- 54))"
    unfolding more_gigabytes_eval more_floats_eval by (rule refl)
  note u = calculate_database_cost_rule[of "''Redis''" "''3GB SSD''" "float_lit 15 2"
      "(''3'', ''GB'')" 8106479329266892 "- 54" "PFloat (float_lit 45 2)"]
  note c = u[THEN conjunct2, THEN conjunct2, THEN conjunct2, THEN conjunct2, THEN conjunct1]
  have n: "\<exists>n. nearest_cents 8106479329266892 (- 54) n \<and>
      PFloat (float_lit 45 2) = PFloat (float_lit n 2)"
    by (rule u[THEN conjunct2, THEN conjunct2, THEN conjunct2, THEN conjunct1, THEN mp])
      (intro conjI r f3 x c)
  have k: "nearest_cents 8106479329266892 (- 54) 45"
    by (simp add: nearest_cents_def)
  show ?thesis by (intro conjI f 1 2 f3 x c n k)
qed

text \<open>
  C10. For each of the five recognized database kinds and a storage descriptor in which no
  size occurs (no digits followed by \<^verbatim>\<open>GB\<close> or \<^verbatim>\<open>TB\<close> in any case), the database cost is the
  float \<^verbatim>\<open>0.0\<close>: the function returns, it does not raise.
\<close>

theorem calculate_database_cost_no_size:
  "database \<in> {''MySQL'', ''PostgreSQL'', ''Microsoft SQL Server'', ''Oracle Database'', ''Redis''}
     \<Longrightarrow> \<not> has_size_pattern storage_str
     \<Longrightarrow> calculate_database_cost database storage_str = Inr (PFloat (Fin 0 0))"
  by (rule database_cost_no_size) (simp add: search_size_None_iff)

theorem calculate_database_cost_no_size_witness:
  "''Redis'' \<in> {''MySQL'', ''PostgreSQL'', ''Microsoft SQL Server'', ''Oracle Database'', ''Redis''} \<and>
   \<not> has_size_pattern ''SSD only'' \<and>
   calculate_database_cost ''Redis'' ''SSD only'' = Inr (PFloat (Fin 0 0))"
proof -
  have d: "''Redis'' \<in> {''MySQL'', ''PostgreSQL'', ''Microsoft SQL Server'', ''Oracle Database'', ''Redis''}"
    by simp
  have n: "\<not> has_size_pattern ''SSD only''"
    unfolding search_size_None_iff[symmetric] by (rule size_searches_eval)
  show ?thesis by (intro conjI d n calculate_database_cost_no_size[OF d n])
qed

section \<open>The handler: claims\<close>

lemma py_round2_not_str: "py_round2 t = Inr v \<Longrightarrow> v \<noteq> PStr a"
  by (cases t) (auto simp: ebind_def split: sum.splits)

lemma calculate_storage_cost_not_str: "calculate_storage_cost s = Inr v \<Longrightarrow> v \<noteq> PStr a"
  unfolding calculate_storage_cost_eq
  by (auto simp: ebind_def py_round2_not_str split: sum.splits)

lemma price_instance_unavailable: "\<exists>e. price_instance None instance = Inl e"
proof (cases "calculate_storage_cost (m_Storage instance)")
  case (Inl e)
  then show ?thesis by (simp add: price_instance_def ebind_def)
next
  case sc: (Inr storage_cost)
  have t: "py_add (PStr ''Price Not Available'') storage_cost = Inl TypeError"
    using calculate_storage_cost_not_str[OF sc] by (cases storage_cost) auto
  show ?thesis
  proof (cases "calculate_database_cost (m_Database instance) (m_Storage instance)")
    case (Inl e)
    then show ?thesis using sc by (simp add: price_instance_def ebind_def)
  next
    case (Inr database_cost)
    then show ?thesis using sc t by (simp add: price_instance_def ebind_def)
  qed
qed

lemma storage_cost_100: "calculate_storage_cost ''100GB SSD'' = Inr (PFloat (float_lit 800 2))"
proof -
  have p: "map py_strip (split_plus ''100GB SSD'') = [''100GB SSD'']"
    by (simp add: split_plus_def py_strip_def is_space_def)
  have l: "float_lit 800 2 = Fin 4503599627370496 (- 49)"
    by (simp add: float_eval)
  show ?thesis
    unfolding calculate_storage_cost_valid p l
    by (simp add: valid_eval component_costs_eval py_sum_def sums_eval rounds_eval ebind_def
        del: py_add.simps py_round2.simps)
qed

lemma example_parse:
  "extract_cpu_ram
     [\<lparr>raw_Server_Name = ''web-01'', raw_IP_Address = ''10.0.0.1'', raw_CPU = ''2 Cores'',
       raw_RAM = ''4GB'', raw_Storage = ''100GB SSD'', raw_Database = ''None''\<rparr>] =
     [\<lparr>n_Server_Name = ''web-01'', n_IP_Address = ''10.0.0.1'', n_CPU = 2, n_RAM = 4,
       n_Storage = ''100GB SSD'', n_Database = ''None''\<rparr>]"
  by (simp add: extract_cpu_ram_def match_cores_def match_gb_def is_digit_def is_space_def
      py_int_def digit_val_def)

lemma example_match:
  "find_best_match
     [\<lparr>n_Server_Name = ''web-01'', n_IP_Address = ''10.0.0.1'', n_CPU = 2, n_RAM = 4,
       n_Storage = ''100GB SSD'', n_Database = ''None''\<rparr>]
     [(''t2.small'', \<lparr>vCPUs = 1, MemoryMiB = 2\<rparr>), (''t3.medium'', \<lparr>vCPUs = 2, MemoryMiB = 4\<rparr>),
      (''m5.large'', \<lparr>vCPUs = 2, MemoryMiB = 8\<rparr>)] =
     [\<lparr>m_Server_Name = ''web-01'', m_IP_Address = ''10.0.0.1'', m_CPU = 2, m_RAM = 4,
       m_InstanceType = ''t3.medium'', m_Storage = ''100GB SSD'', m_Database = ''None''\<rparr>]"
  by (simp add: find_best_match_def)

lemma example_match_empty: "find_best_match reqs [] = []"
  by (simp add: find_best_match_map_filter select_instance_def map_filter_def)

lemma example_price:
  "price_instance None
     \<lparr>m_Server_Name = ''web-01'', m_IP_Address = ''10.0.0.1'', m_CPU = 2, m_RAM = 4,
       m_InstanceType = ''t3.medium'', m_Storage = ''100GB SSD'', m_Database = ''None''\<rparr> =
     Inl TypeError"
  by (simp add: price_instance_def ebind_def storage_cost_100 database_cost_zero)

text \<open>
  C2. For a matched record whose price lookup gives \<^verbatim>\<open>None\<close>, the loop body sets the compute
  cost to the text \<^verbatim>\<open>Price Not Available\<close> and then adds the storage cost to it, which
  raises: no priced record is produced, for any record. With one requirement that has a
  match and no price, the handler answers with status 500 from its \<^verbatim>\<open>except\<close> branch after
  the price lookup, and the report is never stored.
\<close>

theorem price_unavailable_raises:
  "(\<exists>e. price_instance None instance = Inl e) \<and>
   lambda_handler
     \<lparr>fetch_ec2_instance_types =
        [(''t2.small'', \<lparr>vCPUs = 1, MemoryMiB = 2\<rparr>), (''t3.medium'', \<lparr>vCPUs = 2, MemoryMiB = 4\<rparr>),
         (''m5.large'', \<lparr>vCPUs = 2, MemoryMiB = 8\<rparr>)],
      fetch_requirements_from_s3 =
        [\<lparr>raw_Server_Name = ''web-01'', raw_IP_Address = ''10.0.0.1'', raw_CPU = ''2 Cores'',
          raw_RAM = ''4GB'', raw_Storage = ''100GB SSD'', raw_Database = ''None''\<rparr>],
      get_instance_price = (\<lambda>instance_type. None),
      store_results_in_s3_csv = (\<lambda>records. True),
      BUCKET_NAME = ''price-inventory''\<rparr> =
     (\<lparr>statusCode = 500, body = Unexpected_error TypeError\<rparr>,
      [Fetch_instance_types, Fetch_requirements, Get_price ''t3.medium''])"
proof -
  have "lambda_handler
     \<lparr>fetch_ec2_instance_types =
        [(''t2.small'', \<lparr>vCPUs = 1, MemoryMiB = 2\<rparr>), (''t3.medium'', \<lparr>vCPUs = 2, MemoryMiB = 4\<rparr>),
         (''m5.large'', \<lparr>vCPUs = 2, MemoryMiB = 8\<rparr>)],
      fetch_requirements_from_s3 =
        [\<lparr>raw_Server_Name = ''web-01'', raw_IP_Address = ''10.0.0.1'', raw_CPU = ''2 Cores'',
          raw_RAM = ''4GB'', raw_Storage = ''100GB SSD'', raw_Database = ''None''\<rparr>],
      get_instance_price = (\<lambda>instance_type. None),
      store_results_in_s3_csv = (\<lambda>records. True),
      BUCKET_NAME = ''price-inventory''\<rparr> =
     (\<lparr>statusCode = 500, body = Unexpected_error TypeError\<rparr>,
      [Fetch_instance_types, Fetch_requirements, Get_price ''t3.medium''])"
    unfolding lambda_handler_def Let_def
    by (simp add: example_parse example_match example_price)
  with price_instance_unavailable show ?thesis by blast
qed

text \<open>
  C8. When the fetched list of requirements is empty, the handler answers with status 500
  and has called nothing but the two fetches: no price lookup, no report. When the pricing
  loop ends without an exception and the report collaborator returns failure, the handler
  answers with status 500; and when that collaborator fails on every report, the answer is
  status 500 whatever else happens.
\<close>

theorem lambda_handler_failures:
  "(fetch_requirements_from_s3 c = [] \<longrightarrow>
      lambda_handler c =
        (\<lparr>statusCode = 500, body = Message ''Failed to fetch requirements from S3.''\<rparr>,
         [Fetch_instance_types, Fetch_requirements])) \<and>
   (fetch_requirements_from_s3 c \<noteq> [] \<and>
    pricing_loop (get_instance_price c)
      (find_best_match (extract_cpu_ram (fetch_requirements_from_s3 c)) (fetch_ec2_instance_types c))
      [] [Fetch_instance_types, Fetch_requirements] = (Inr priced, trace) \<and>
    \<not> store_results_in_s3_csv c priced \<longrightarrow>
      lambda_handler c =
        (\<lparr>statusCode = 500, body = Message ''Failed to upload CSV results to S3.''\<rparr>,
         trace @ [Store_results priced])) \<and>
   ((\<forall>records. \<not> store_results_in_s3_csv c records) \<longrightarrow>
      statusCode (fst (lambda_handler c)) = 500)"
proof -
  have 1: "fetch_requirements_from_s3 c = [] \<longrightarrow>
      lambda_handler c =
        (\<lparr>statusCode = 500, body = Message ''Failed to fetch requirements from S3.''\<rparr>,
         [Fetch_instance_types, Fetch_requirements])"
    by (simp add: lambda_handler_def)
  have 2: "fetch_requirements_from_s3 c \<noteq> [] \<and>
    pricing_loop (get_instance_price c)
      (find_best_match (extract_cpu_ram (fetch_requirements_from_s3 c)) (fetch_ec2_instance_types c))
      [] [Fetch_instance_types, Fetch_requirements] = (Inr priced, trace) \<and>
    \<not> store_results_in_s3_csv c priced \<longrightarrow>
      lambda_handler c =
        (\<lparr>statusCode = 500, body = Message ''Failed to upload CSV results to S3.''\<rparr>,
         trace @ [Store_results priced])"
    by (simp add: lambda_handler_def Let_def)
  have 3: "(\<forall>records. \<not> store_results_in_s3_csv c records) \<longrightarrow>
      statusCode (fst (lambda_handler c)) = 500"
    by (auto simp: lambda_handler_def Let_def split: prod.splits sum.splits)
  show ?thesis by (intro conjI 1 2 3)
qed

theorem lambda_handler_failures_witness:
  "lambda_handler
     \<lparr>fetch_ec2_instance_types = [(''t3.medium'', \<lparr>vCPUs = 2, MemoryMiB = 4\<rparr>)],
      fetch_requirements_from_s3 = [],
      get_instance_price = (\<lambda>instance_type. None),
      store_results_in_s3_csv = (\<lambda>records. True),
      BUCKET_NAME = ''price-inventory''\<rparr> =
     (\<lparr>statusCode = 500, body = Message ''Failed to fetch requirements from S3.''\<rparr>,
      [Fetch_instance_types, Fetch_requirements]) \<and>
   lambda_handler
     \<lparr>fetch_ec2_instance_types = [],
      fetch_requirements_from_s3 =
        [\<lparr>raw_Server_Name = ''web-01'', raw_IP_Address = ''10.0.0.1'', raw_CPU = ''2 Cores'',
          raw_RAM = ''4GB'', raw_Storage = ''100GB SSD'', raw_Database = ''None''\<rparr>],
      get_instance_price = (\<lambda>instance_type. None),
      store_results_in_s3_csv = (\<lambda>records. False),
      BUCKET_NAME = ''price-inventory''\<rparr> =
     (\<lparr>statusCode = 500, body = Message ''Failed to upload CSV results to S3.''\<rparr>,
      [Fetch_instance_types, Fetch_requirements, Store_results []])"
proof -
  let ?c1 = "\<lparr>fetch_ec2_instance_types = [(''t3.medium'', \<lparr>vCPUs = 2, MemoryMiB = 4\<rparr>)],
      fetch_requirements_from_s3 = [],
      get_instance_price = (\<lambda>instance_type. None),
      store_results_in_s3_csv = (\<lambda>records. True),
      BUCKET_NAME = ''price-inventory''\<rparr>"
  let ?c2 = "\<lparr>fetch_ec2_instance_types = [],
      fetch_requirements_from_s3 =
        [\<lparr>raw_Server_Name = ''web-01'', raw_IP_Address = ''10.0.0.1'', raw_CPU = ''2 Cores'',
          raw_RAM = ''4GB'', raw_Storage = ''100GB SSD'', raw_Database = ''None''\<rparr>],
      get_instance_price = (\<lambda>instance_type. None),
      store_results_in_s3_csv = (\<lambda>records. False),
      BUCKET_NAME = ''price-inventory''\<rparr>"
  have a: "lambda_handler ?c1 =
     (\<lparr>statusCode = 500, body = Message ''Failed to fetch requirements from S3.''\<rparr>,
      [Fetch_instance_types, Fetch_requirements])"
    using lambda_handler_failures[of ?c1] by simp
  have p: "fetch_requirements_from_s3 ?c2 \<noteq> [] \<and>
    pricing_loop (get_instance_price ?c2)
      (find_best_match (extract_cpu_ram (fetch_requirements_from_s3 ?c2)) (fetch_ec2_instance_types ?c2))
      [] [Fetch_instance_types, Fetch_requirements] =
      (Inr [], [Fetch_instance_types, Fetch_requirements]) \<and>
    \<not> store_results_in_s3_csv ?c2 []"
    by (simp add: example_match_empty)
  have b: "lambda_handler ?c2 =
     (\<lparr>statusCode = 500, body = Message ''Failed to upload CSV results to S3.''\<rparr>,
      [Fetch_instance_types, Fetch_requirements] @ [Store_results []])"
    by (rule lambda_handler_failures[of ?c2 "[]" "[Fetch_instance_types, Fetch_requirements]",
          THEN conjunct2, THEN conjunct1, THEN mp]) (rule p)
  from a b show ?thesis by simp
qed

end
